theory Spec2Isabelle
  imports Complex_Main
begin

section \<open>Numbers\<close>

text \<open>
  The program computes on Go's \<^verbatim>\<open>float64\<close>. A value is a finite number, one of the two
  infinities, or not-a-number. Finite values are modelled by the reals they stand for:
  rounding and overflow are left out, and zero carries no sign (a quotient of a nonzero
  number by zero takes the sign of the numerator). What is kept is what the program
  branches on: comparisons with not-a-number are false, and a division by zero returns
  a value instead of failing.
\<close>

datatype float64 = Fin real | PInf | NInf | NaN

fun fneg :: "float64 \<Rightarrow> float64" where
  "fneg (Fin x) = Fin (- x)"
| "fneg PInf = NInf"
| "fneg NInf = PInf"
| "fneg NaN = NaN"

fun fadd :: "float64 \<Rightarrow> float64 \<Rightarrow> float64" where
  "fadd (Fin x) (Fin y) = Fin (x + y)"
| "fadd NaN _ = NaN"
| "fadd _ NaN = NaN"
| "fadd PInf NInf = NaN"
| "fadd NInf PInf = NaN"
| "fadd PInf _ = PInf"
| "fadd _ PInf = PInf"
| "fadd NInf _ = NInf"
| "fadd _ NInf = NInf"

definition fsub :: "float64 \<Rightarrow> float64 \<Rightarrow> float64" where
  "fsub a b = fadd a (fneg b)"

text \<open>The sign of a value: \<open>1\<close>, \<open>-1\<close>, or \<open>0\<close> for zero and not-a-number.\<close>

fun fsign :: "float64 \<Rightarrow> int" where
  "fsign (Fin x) = (if 0 < x then 1 else if x < 0 then - 1 else 0)"
| "fsign PInf = 1"
| "fsign NInf = - 1"
| "fsign NaN = 0"

definition of_sign :: "int \<Rightarrow> float64" where
  "of_sign s = (if 0 < s then PInf else if s < 0 then NInf else NaN)"

fun fmul :: "float64 \<Rightarrow> float64 \<Rightarrow> float64" where
  "fmul (Fin x) (Fin y) = Fin (x * y)"
| "fmul NaN _ = NaN"
| "fmul _ NaN = NaN"
| "fmul a b = of_sign (fsign a * fsign b)"

fun fdiv :: "float64 \<Rightarrow> float64 \<Rightarrow> float64" where
  "fdiv (Fin x) (Fin y) = (if y = 0 then of_sign (fsign (Fin x)) else Fin (x / y))"
| "fdiv NaN _ = NaN"
| "fdiv _ NaN = NaN"
| "fdiv (Fin x) _ = Fin 0"
| "fdiv a (Fin y) = of_sign (fsign a * (if y < 0 then - 1 else 1))"
| "fdiv _ _ = NaN"

text \<open>Go's \<^verbatim>\<open>a > b\<close> and \<^verbatim>\<open>a < b\<close>.\<close>

fun fgt :: "float64 \<Rightarrow> float64 \<Rightarrow> bool" where
  "fgt (Fin x) (Fin y) = (y < x)"
| "fgt NaN _ = False"
| "fgt _ NaN = False"
| "fgt PInf b = (b \<noteq> PInf)"
| "fgt NInf _ = False"
| "fgt (Fin x) b = (b = NInf)"

definition flt :: "float64 \<Rightarrow> float64 \<Rightarrow> bool" where
  "flt a b = fgt b a"

text \<open>Go's \<^verbatim>\<open>a == b\<close>: not-a-number equals nothing, itself included.\<close>

definition feq :: "float64 \<Rightarrow> float64 \<Rightarrow> bool" where
  "feq a b = (a \<noteq> NaN \<and> a = b)"

definition IsNaN :: "float64 \<Rightarrow> bool" where
  "IsNaN a = (a = NaN)"

fun is_Fin :: "float64 \<Rightarrow> bool" where
  "is_Fin (Fin x) = True"
| "is_Fin _ = False"

fun val :: "float64 \<Rightarrow> real" where
  "val (Fin x) = x"
| "val _ = 0"

text \<open>The package variable \<^verbatim>\<open>lambda = 0.1\<close>; the program never assigns it.\<close>

definition lambda :: float64 where
  "lambda = Fin (1 / 10)"

section \<open>Matrices\<close>

text \<open>
  \<^verbatim>\<open>DenseMatrix\<close> comes from the package \<^verbatim>\<open>github.com/skelterjohn/go.matrix\<close>, which
  is not part of this repository. A matrix is a header (rows, columns) over a slice of
  elements in row-major order; every matrix here has its rows contiguous (step = cols).
  The record is polymorphic in what stands for the slice: the list of its values where a
  function only builds new matrices, an address into a store where a function writes
  through a slice it was given.
\<close>

record 'e DenseMatrix =
  rows :: nat
  cols :: nat
  elements :: 'e

type_synonym matrix = "float64 list DenseMatrix"

text \<open>\<^verbatim>\<open>MakeDenseMatrix(elements, rows, cols)\<close> wraps the slice without a check.\<close>

definition MakeDenseMatrix :: "'e \<Rightarrow> nat \<Rightarrow> nat \<Rightarrow> 'e DenseMatrix" where
  "MakeDenseMatrix es r c = \<lparr>rows = r, cols = c, elements = es\<rparr>"

text \<open>
  A matrix is well formed when its slice holds exactly its \<open>rows * cols\<close> elements. The
  library's own constructors build such matrices; reading a matrix whose slice is
  shorter panics in Go.
\<close>

definition well_formed :: "matrix \<Rightarrow> bool" where
  "well_formed A = (length (elements A) = rows A * cols A)"

definition Get :: "matrix \<Rightarrow> nat \<Rightarrow> nat \<Rightarrow> float64" where
  "Get A i j = elements A ! (i * cols A + j)"

text \<open>\<^verbatim>\<open>Array()\<close>: the \<open>rows * cols\<close> elements in row-major order.\<close>

definition Array :: "matrix \<Rightarrow> float64 list" where
  "Array A = take (rows A * cols A) (elements A)"

text \<open>The matrix with entry \<open>f i j\<close> at row \<open>i\<close>, column \<open>j\<close>.\<close>

definition build :: "nat \<Rightarrow> nat \<Rightarrow> (nat \<Rightarrow> nat \<Rightarrow> float64) \<Rightarrow> matrix" where
  "build r c f = MakeDenseMatrix (map (\<lambda>n. f (n div c) (n mod c)) [0..<r * c]) r c"

section \<open>The observation mask\<close>

text \<open>
  \<^verbatim>\<open>
  func MakeWeightMatrix(mat *DenseMatrix) *DenseMatrix {
      values := mat.Array()
      newvalues := make([]float64, len(values))
      for i := 0; i < len(values); i++ {
          if values[i] == 0.0 || math.IsNaN(values[i]) { newvalues[i] = 0 }
          else { newvalues[i] = 1 }
      }
      return MakeDenseMatrix(newvalues, mat.Rows(), mat.Cols())
  }
  \<close>
\<close>

definition MakeWeightMatrix :: "matrix \<Rightarrow> matrix" where
  "MakeWeightMatrix mat =
     (let values = Array mat;
          newvalues = map (\<lambda>v. if feq v (Fin 0) \<or> IsNaN v then Fin 0 else Fin 1) values
      in MakeDenseMatrix newvalues (rows mat) (cols mat))"

section \<open>The matrix operations the program calls\<close>

text \<open>
  These are the methods of the library's \<^verbatim>\<open>DenseMatrix\<close> that the program uses, on
  well-formed matrices. \<^verbatim>\<open>Transpose\<close>, \<^verbatim>\<open>Copy\<close> and \<^verbatim>\<open>TimesDense\<close> return a new matrix;
  \<^verbatim>\<open>Scale\<close>, \<^verbatim>\<open>AddDense\<close>, \<^verbatim>\<open>SubtractDense\<close> and \<^verbatim>\<open>SwapRows\<close> change their receiver in
  place (the program uses them as statements): here they return the receiver's new value.
  The two-result methods return a matrix and an error, and the error is
  \<^verbatim>\<open>ErrorDimensionMismatch\<close> when the shapes do not fit.
\<close>

datatype error = ErrorDimensionMismatch

text \<open>How a Go program stops: a nil pointer is used, or an index is out of range.\<close>

datatype panic = NilDereference | IndexOutOfRange

definition Zeros :: "nat \<Rightarrow> nat \<Rightarrow> matrix" where
  "Zeros r c = build r c (\<lambda>i j. Fin 0)"

definition Eye :: "nat \<Rightarrow> matrix" where
  "Eye n = build n n (\<lambda>i j. if i = j then Fin 1 else Fin 0)"

definition Copy :: "matrix \<Rightarrow> matrix" where
  "Copy A = MakeDenseMatrix (Array A) (rows A) (cols A)"

text \<open>
  \<^verbatim>\<open>Transpose\<close> reads every element of its receiver: a slice shorter than
  \<open>rows * cols\<close> makes it panic. Among the matrices that the program builds, only the
  result of \<^verbatim>\<open>MatrixSolver\<close> can have a short slice, and \<^verbatim>\<open>ALS\<close> transposes it before any
  other use.
\<close>

definition transposed :: "matrix \<Rightarrow> matrix" where
  "transposed A = build (cols A) (rows A) (\<lambda>i j. Get A j i)"

definition Transpose :: "matrix \<Rightarrow> panic + matrix" where
  "Transpose A =
     (if length (elements A) < rows A * cols A then Inl IndexOutOfRange
      else Inr (transposed A))"

definition Scale :: "matrix \<Rightarrow> float64 \<Rightarrow> matrix" where
  "Scale A f = A\<lparr>elements := map (\<lambda>x. fmul x f) (elements A)\<rparr>"

definition AddDense :: "matrix \<Rightarrow> matrix \<Rightarrow> matrix \<times> error option" where
  "AddDense A B =
     (if cols A \<noteq> cols B \<or> rows A \<noteq> rows B then (A, Some ErrorDimensionMismatch)
      else (build (rows A) (cols A) (\<lambda>i j. fadd (Get A i j) (Get B i j)), None))"

definition SubtractDense :: "matrix \<Rightarrow> matrix \<Rightarrow> matrix \<times> error option" where
  "SubtractDense A B =
     (if cols A \<noteq> cols B \<or> rows A \<noteq> rows B then (A, Some ErrorDimensionMismatch)
      else (build (rows A) (cols A) (\<lambda>i j. fsub (Get A i j) (Get B i j)), None))"

text \<open>A sum that starts at zero and adds the terms from left to right.\<close>

definition fsum :: "float64 list \<Rightarrow> float64" where
  "fsum xs = foldl fadd (Fin 0) xs"

definition TimesDense :: "matrix \<Rightarrow> matrix \<Rightarrow> matrix \<times> error option" where
  "TimesDense A B =
     (if cols A \<noteq> rows B then (Zeros (rows A) (cols B), Some ErrorDimensionMismatch)
      else (build (rows A) (cols B)
              (\<lambda>i j. fsum (map (\<lambda>l. fmul (Get A i l) (Get B l j)) [0..<cols A])), None))"

text \<open>\<^verbatim>\<open>SwapRows(i, j)\<close> exchanges two rows; a row that does not exist is out of range.\<close>

definition SwapRows :: "matrix \<Rightarrow> nat \<Rightarrow> nat \<Rightarrow> panic + matrix" where
  "SwapRows A i j =
     (if 0 < cols A \<and> (rows A \<le> i \<or> rows A \<le> j) then Inl IndexOutOfRange
      else Inr (build (rows A) (cols A)
                  (\<lambda>r c. Get A (if r = i then j else if r = j then i else r) c)))"

text \<open>
  \<^verbatim>\<open>SolveDense\<close> is the library's linear solve. The program calls it as
  \<^verbatim>\<open>x, _ := A.SolveDense(b)\<close>: it returns a matrix, which is nil when it fails, and an
  error. The solve is a parameter of the model; what the program relies on is
  that the matrix returned is the column vector \<open>x\<close> with \<open>A \<cdot> x\<close> equal to the first
  column of \<open>b\<close>.
\<close>

type_synonym solver = "matrix \<Rightarrow> matrix \<Rightarrow> matrix option \<times> error option"

text \<open>
  The library's solve decomposes a copy of \<open>A\<close> into a unit lower and an upper triangle
  (with row pivoting), applies the row permutation to \<open>b\<close>, and substitutes: forward
  through the lower triangle, then backward through the upper one, on the first column
  of the right-hand side.

  \<^verbatim>\<open>
  func (A *DenseMatrix) solveLower(b Matrix) *DenseMatrix {
      x := make([]float64, A.Cols())
      for i := 0; i < A.Rows(); i++ {
          x[i] = b.Get(i, 0)
          for j := 0; j < i; j++ { x[i] -= x[j] * A.Get(i, j) }
      }
      return MakeDenseMatrix(x, A.Cols(), 1)
  }
  func (A *DenseMatrix) solveUpper(b Matrix) *DenseMatrix {
      x := make([]float64, A.Cols())
      for i := A.Rows() - 1; i >= 0; i-- {
          x[i] = b.Get(i, 0)
          for j := i + 1; j < A.Cols(); j++ { x[i] -= x[j] * A.Get(i, j) }
          x[i] /= A.Get(i, i)
      }
      return MakeDenseMatrix(x, A.Cols(), 1)
  }
  \<close>

  No step looks for a zero on the diagonal: the division by a zero pivot gives an
  infinity or not-a-number, which the rows above it then read.
\<close>

fun solveLower_loop :: "matrix \<Rightarrow> matrix \<Rightarrow> nat list \<Rightarrow> float64 list \<Rightarrow> float64 list" where
  "solveLower_loop A b [] x = x"
| "solveLower_loop A b (i # rest) x =
     solveLower_loop A b rest
       (x[i := foldl (\<lambda>xi j. fsub xi (fmul (x ! j) (Get A i j))) (Get b i 0) [0..<i]])"

definition solveLower :: "matrix \<Rightarrow> matrix \<Rightarrow> matrix" where
  "solveLower A b =
     MakeDenseMatrix (solveLower_loop A b [0..<rows A] (replicate (cols A) (Fin 0))) (cols A) 1"

fun solveUpper_loop :: "matrix \<Rightarrow> matrix \<Rightarrow> nat list \<Rightarrow> float64 list \<Rightarrow> float64 list" where
  "solveUpper_loop A b [] x = x"
| "solveUpper_loop A b (i # rest) x =
     solveUpper_loop A b rest
       (x[i := fdiv (foldl (\<lambda>xi j. fsub xi (fmul (x ! j) (Get A i j))) (Get b i 0)
                       [i + 1..<cols A])
                    (Get A i i)])"

definition solveUpper :: "matrix \<Rightarrow> matrix \<Rightarrow> matrix" where
  "solveUpper A b =
     MakeDenseMatrix (solveUpper_loop A b (rev [0..<rows A]) (replicate (cols A) (Fin 0)))
       (cols A) 1"

text \<open>
  The solve on a square diagonal matrix with finite entries. The decomposition leaves such
  a matrix as it is and exchanges no rows (below a diagonal entry the column is zero, so
  no entry is larger in absolute value), so the solve is the two substitutions on \<open>A\<close>
  and \<open>b\<close> themselves; it fails only when \<open>b\<close> has not as many rows as \<open>A\<close>. The examples
  below apply it to such systems only; on any other system it is not the library's solve.
\<close>

definition diag_solve :: solver where
  "diag_solve A b =
     (if rows b \<noteq> rows A then (None, Some ErrorDimensionMismatch)
      else (Some (solveUpper A (solveLower A b)), None))"

section \<open>Sum of the elements\<close>

text \<open>
  \<^verbatim>\<open>
  func SumMatrix(mat *DenseMatrix) (sum float64) {
      values := mat.Array()
      sum = float64(0)
      for i := 0; i < len(values); i++ { sum += values[i] }
      return
  }
  \<close>
\<close>

definition SumMatrix :: "matrix \<Rightarrow> float64" where
  "SumMatrix mat = (let values = Array mat in foldl fadd (Fin 0) values)"

section \<open>Solving for several right-hand sides\<close>

text \<open>
  \<^verbatim>\<open>
  func SwapCols(mat *DenseMatrix, i, j int) *DenseMatrix {
      p := mat.Copy()
      trans := p.Transpose()
      trans.SwapRows(i, j)
      toret := trans.Transpose()
      return toret
  }
  func MatrixSolver(mat, outcome *DenseMatrix) *DenseMatrix {
      rows := make([]float64, 0)
      firstRow, _ := mat.SolveDense(outcome)
      rows = append(rows, firstRow.Array()...)
      for i := 1; i < mat.Cols(); i++ {
          matrix := mat.Copy()
          swapped := SwapCols(outcome, 0, i)
          value, _ := matrix.SolveDense(swapped)
          rows = append(rows, value.Array()...)
      }
      return MakeDenseMatrix(rows, mat.Rows(), mat.Cols())
  }
  \<close>
  The error of each solve is dropped; a nil matrix panics when its \<^verbatim>\<open>Array\<close> is taken.
\<close>

definition SwapCols :: "matrix \<Rightarrow> nat \<Rightarrow> nat \<Rightarrow> panic + matrix" where
  "SwapCols mat i j =
     (let p = Copy mat in
      case Transpose p of Inl e \<Rightarrow> Inl e
      | Inr tr \<Rightarrow>
          (case SwapRows tr i j of Inl e \<Rightarrow> Inl e
           | Inr swapped \<Rightarrow> Transpose swapped))"

function MatrixSolver_loop ::
  "solver \<Rightarrow> matrix \<Rightarrow> matrix \<Rightarrow> nat \<Rightarrow> float64 list \<Rightarrow> panic + float64 list" where
  "MatrixSolver_loop SolveDense mat outcome i rws =
     (if i < cols mat then
        (let matrix = Copy mat in
         case SwapCols outcome 0 i of Inl e \<Rightarrow> Inl e
         | Inr swapped \<Rightarrow>
             (case fst (SolveDense matrix swapped) of None \<Rightarrow> Inl NilDereference
              | Some value \<Rightarrow>
                  MatrixSolver_loop SolveDense mat outcome (i + 1) (rws @ Array value)))
      else Inr rws)"
  by pat_completeness auto
termination
  by (relation "measure (\<lambda>(SolveDense, mat, outcome, i, rws). cols mat - i)") auto

declare MatrixSolver_loop.simps [simp del]

definition MatrixSolver :: "solver \<Rightarrow> matrix \<Rightarrow> matrix \<Rightarrow> panic + matrix" where
  "MatrixSolver SolveDense mat outcome =
     (case fst (SolveDense mat outcome) of None \<Rightarrow> Inl NilDereference
      | Some firstRow \<Rightarrow>
          (case MatrixSolver_loop SolveDense mat outcome 1 ([] @ Array firstRow) of
             Inl e \<Rightarrow> Inl e
           | Inr rws \<Rightarrow> Inr (MakeDenseMatrix rws (rows mat) (cols mat))))"

section \<open>Alternating least squares\<close>

text \<open>
  \<^verbatim>\<open>
  func MakeXY(mat *DenseMatrix, n_factors int) (X, Y *DenseMatrix) {
      rows := mat.Rows()
      cols := mat.Cols()
      X_data := make([]float64, rows*n_factors)
      Y_data := make([]float64, cols*n_factors)
      for i := 0; i < len(X_data); i++ { X_data[i] = 5 * rand.Float64() }
      for j := 0; j < len(Y_data); j++ { Y_data[j] = 5 * rand.Float64() }
      X = MakeDenseMatrix(X_data, rows, n_factors)
      Y = MakeDenseMatrix(Y_data, n_factors, cols)
      return
  }
  \<close>
  The random source is the sequence \<open>rnd\<close> of the values that successive calls of
  \<^verbatim>\<open>rand.Float64()\<close> return. The number of factors is a natural number (a negative one
  panics in \<^verbatim>\<open>make\<close>).
\<close>

definition MakeXY :: "(nat \<Rightarrow> float64) \<Rightarrow> matrix \<Rightarrow> nat \<Rightarrow> matrix \<times> matrix" where
  "MakeXY rnd mat n_factors =
     (let rws = rows mat;
          cls = cols mat;
          X_data = map (\<lambda>i. fmul (Fin 5) (rnd i)) [0..<rws * n_factors];
          Y_data = map (\<lambda>j. fmul (Fin 5) (rnd (rws * n_factors + j))) [0..<cls * n_factors]
      in (MakeDenseMatrix X_data rws n_factors, MakeDenseMatrix Y_data n_factors cls))"

text \<open>
  \<^verbatim>\<open>
  func ALS(Q *DenseMatrix, iterations, n_factors int) *DenseMatrix {
      X, Y := MakeXY(Q, n_factors)
      W := MakeWeightMatrix(Q)
      for i := 0; i < iterations; i++ {
          I := Eye(n_factors)
          I.Scale(lambda)
          Y_dot, err := Y.TimesDense(Y.Transpose())
          errcheck(err)
          Y_dot.AddDense(I)
          X_toSolve, _ := Y.TimesDense(Q.Transpose())
          X = MatrixSolver(Y_dot, X_toSolve)
          X = X.Transpose()
          X_dot, err := X.TimesDense(X.Transpose())
          errcheck(err)
          X_dot.AddDense(I)
          Y_toSolve, _ := X.TimesDense(Q)
          Y = MatrixSolver(X_dot, Y_toSolve).Transpose()
          X = X.Transpose()
      }
      Q_hat, _ := X.TimesDense(Y)
      return Q_hat
  }
  \<close>
  \<^verbatim>\<open>errcheck\<close> prints an error and returns; the run goes on. The body of the loop is
  \<open>ALS_iteration\<close>; the names \<open>X1\<close>, \<open>X2\<close>, \<open>X3\<close> are the successive values of the
  variable \<^verbatim>\<open>X\<close>.
\<close>

definition ALS_iteration ::
  "solver \<Rightarrow> matrix \<Rightarrow> nat \<Rightarrow> matrix \<times> matrix \<Rightarrow> panic + matrix \<times> matrix" where
  "ALS_iteration SolveDense Q n_factors XY =
     (let Y = snd XY;
          I = Scale (Eye n_factors) lambda
      in case Transpose Y of Inl e \<Rightarrow> Inl e
      | Inr Yt \<Rightarrow>
      let Y_dot = fst (AddDense (fst (TimesDense Y Yt)) I)
      in case Transpose Q of Inl e \<Rightarrow> Inl e
      | Inr Qt \<Rightarrow>
      let X_toSolve = fst (TimesDense Y Qt)
      in case MatrixSolver SolveDense Y_dot X_toSolve of Inl e \<Rightarrow> Inl e
      | Inr X1 \<Rightarrow>
      case Transpose X1 of Inl e \<Rightarrow> Inl e
      | Inr X2 \<Rightarrow>
      case Transpose X2 of Inl e \<Rightarrow> Inl e
      | Inr X2t \<Rightarrow>
      let X_dot = fst (AddDense (fst (TimesDense X2 X2t)) I);
          Y_toSolve = fst (TimesDense X2 Q)
      in case MatrixSolver SolveDense X_dot Y_toSolve of Inl e \<Rightarrow> Inl e
      | Inr Y1 \<Rightarrow>
      case Transpose Y1 of Inl e \<Rightarrow> Inl e
      | Inr Y' \<Rightarrow>
      case Transpose X2 of Inl e \<Rightarrow> Inl e
      | Inr X3 \<Rightarrow> Inr (X3, Y'))"

function ALS_loop ::
  "solver \<Rightarrow> matrix \<Rightarrow> nat \<Rightarrow> int \<Rightarrow> int \<Rightarrow> matrix \<times> matrix \<Rightarrow> panic + matrix \<times> matrix" where
  "ALS_loop SolveDense Q n_factors i iterations XY =
     (if i < iterations then
        (case ALS_iteration SolveDense Q n_factors XY of Inl e \<Rightarrow> Inl e
         | Inr XY' \<Rightarrow> ALS_loop SolveDense Q n_factors (i + 1) iterations XY')
      else Inr XY)"
  by pat_completeness auto
termination
  by (relation "measure (\<lambda>(SolveDense, Q, n_factors, i, iterations, XY). nat (iterations - i))")
    auto

declare ALS_loop.simps [simp del]

definition ALS :: "(nat \<Rightarrow> float64) \<Rightarrow> solver \<Rightarrow> matrix \<Rightarrow> int \<Rightarrow> nat \<Rightarrow> panic + matrix" where
  "ALS rnd SolveDense Q iterations n_factors =
     (let XY = MakeXY rnd Q n_factors;
          W = MakeWeightMatrix Q
      in case ALS_loop SolveDense Q n_factors 0 iterations XY of Inl e \<Rightarrow> Inl e
      | Inr XY' \<Rightarrow> Inr (fst (TimesDense (fst XY') (snd XY'))))"

section \<open>Maximum and index of the maximum\<close>

text \<open>
  \<^verbatim>\<open>
  func MatrixMax(mat *DenseMatrix) float64 {
      values := mat.Array()
      max := float64(0)
      for i := 0; i < len(values); i++ {
          if values[i] > max { max = values[i] }
      }
      return max
  }
  func argmax(args []float64) (index int) {
      index = 0
      first := 0.0
      for idx, val := range args {
          if val > first { index = idx; first = val }
      }
      return
  }
  \<close>
\<close>

definition MatrixMax :: "matrix \<Rightarrow> float64" where
  "MatrixMax mat =
     (let values = Array mat
      in foldl (\<lambda>max v. if fgt v max then v else max) (Fin 0) values)"

fun argmax_loop :: "float64 list \<Rightarrow> nat \<Rightarrow> nat \<Rightarrow> float64 \<Rightarrow> nat" where
  "argmax_loop [] idx index first = index"
| "argmax_loop (v # args) idx index first =
     (if fgt v first then argmax_loop args (idx + 1) idx v
      else argmax_loop args (idx + 1) index first)"

definition argmax :: "float64 list \<Rightarrow> nat" where
  "argmax args = argmax_loop args 0 0 (Fin 0)"

section \<open>Matrices in a store\<close>

text \<open>
  \<^verbatim>\<open>SimpleTimes\<close>, \<^verbatim>\<open>GetError\<close>, \<^verbatim>\<open>MatrixMinMinus\<close> and \<^verbatim>\<open>Predict\<close> write through the slices
  of the matrices they are given, and two headers can share one slice. For them a matrix
  is a header whose \<open>elements\<close> is the address of its slice in a store. The store is the
  list of the slices made so far: an address is a position in it, and a new slice goes to
  the end.
\<close>

type_synonym addr = nat

type_synonym dense = "addr DenseMatrix"

type_synonym store = "float64 list list"

definition slices :: "store \<Rightarrow> addr \<Rightarrow> float64 list" where
  "slices s a = s ! a"

definition fresh :: "store \<Rightarrow> addr" where
  "fresh s = length s"

definition alloc :: "store \<Rightarrow> float64 list \<Rightarrow> addr \<times> store" where
  "alloc s xs = (fresh s, s @ [xs])"

definition overwrite :: "store \<Rightarrow> addr \<Rightarrow> float64 list \<Rightarrow> store" where
  "overwrite s a xs = s[a := xs]"

text \<open>
  The value of a matrix in a store. The functions that only read a matrix (\<^verbatim>\<open>SumMatrix\<close>,
  \<^verbatim>\<open>MatrixMax\<close>, \<^verbatim>\<open>argmax\<close>) are applied to this value; the copy that \<^verbatim>\<open>Array()\<close> may make
  for them is never written, and is left out of the store.
\<close>

definition load :: "store \<Rightarrow> dense \<Rightarrow> matrix" where
  "load s A = MakeDenseMatrix (slices s (elements A)) (rows A) (cols A)"

text \<open>
  The library's methods on the store. \<^verbatim>\<open>TimesDense\<close> and \<^verbatim>\<open>Copy\<close> put their result into a
  new slice; \<^verbatim>\<open>SubtractDense\<close> and \<^verbatim>\<open>Scale\<close> overwrite the slice of their receiver.
\<close>

definition TimesDense_store :: "store \<Rightarrow> dense \<Rightarrow> dense \<Rightarrow> dense \<times> error option \<times> store" where
  "TimesDense_store s A B =
     (let (C, err) = TimesDense (load s A) (load s B);
          (a, s') = alloc s (elements C)
      in (MakeDenseMatrix a (rows C) (cols C), err, s'))"

definition Copy_store :: "store \<Rightarrow> dense \<Rightarrow> dense \<times> store" where
  "Copy_store s A =
     (let (a, s') = alloc s (Array (load s A))
      in (MakeDenseMatrix a (rows A) (cols A), s'))"

definition SubtractDense_store :: "store \<Rightarrow> dense \<Rightarrow> dense \<Rightarrow> error option \<times> store" where
  "SubtractDense_store s A B =
     (let (A', err) = SubtractDense (load s A) (load s B)
      in (err, overwrite s (elements A) (elements A')))"

definition Scale_store :: "store \<Rightarrow> dense \<Rightarrow> float64 \<Rightarrow> store" where
  "Scale_store s A f = overwrite s (elements A) (elements (Scale (load s A) f))"

text \<open>
  \<^verbatim>\<open>Array()\<close> returns the \<open>rows * cols\<close> elements as a slice. Whether that is the matrix's
  own slice or a copy of it is the library's choice, made from the header: \<open>shares\<close> is
  that choice, a parameter of the model.
\<close>

definition Array_store :: "(dense \<Rightarrow> bool) \<Rightarrow> store \<Rightarrow> dense \<Rightarrow> addr \<times> store" where
  "Array_store shares s A =
     (if shares A then (elements A, s) else alloc s (Array (load s A)))"

text \<open>\<^verbatim>\<open>rowSlice(i)\<close>: the elements of row \<open>i\<close>.\<close>

definition rowSlice :: "store \<Rightarrow> dense \<Rightarrow> nat \<Rightarrow> float64 list" where
  "rowSlice s A i = take (cols A) (drop (i * cols A) (slices s (elements A)))"

section \<open>The weighted error\<close>

text \<open>
  \<^verbatim>\<open>
  func SimpleTimes(mat, weight *DenseMatrix) *DenseMatrix {
      if len(mat.Array()) != len(weight.Array()) { return nil }
      weightArray := weight.Array()
      matValues := mat.Array()
      for i := 0; i < len(matValues); i++ {
          matValues[i] = weightArray[i] * matValues[i]
      }
      return MakeDenseMatrix(matValues, mat.Rows(), mat.Cols())
  }
  \<close>
  The two arrays of the length test are dropped at once; the test compares the sizes
  \<open>rows * cols\<close>. The loop writes \<^verbatim>\<open>matValues\<close> one index at a time.
\<close>

function SimpleTimes_loop :: "addr \<Rightarrow> addr \<Rightarrow> nat \<Rightarrow> nat \<Rightarrow> store \<Rightarrow> store" where
  "SimpleTimes_loop weightArray matValues i n s =
     (if i < n then
        SimpleTimes_loop weightArray matValues (i + 1) n
          (overwrite s matValues
             ((slices s matValues)
                [i := fmul (slices s weightArray ! i) (slices s matValues ! i)]))
      else s)"
  by pat_completeness auto
termination
  by (relation "measure (\<lambda>(weightArray, matValues, i, n, s). n - i)") auto

declare SimpleTimes_loop.simps [simp del]

definition SimpleTimes ::
  "(dense \<Rightarrow> bool) \<Rightarrow> store \<Rightarrow> dense \<Rightarrow> dense \<Rightarrow> dense option \<times> store" where
  "SimpleTimes shares s mat weight =
     (if rows mat * cols mat \<noteq> rows weight * cols weight then (None, s)
      else
        (let (weightArray, s1) = Array_store shares s weight;
             (matValues, s2) = Array_store shares s1 mat;
             s3 = SimpleTimes_loop weightArray matValues 0 (rows mat * cols mat) s2
         in (Some (MakeDenseMatrix matValues (rows mat) (cols mat)), s3)))"

text \<open>
  \<^verbatim>\<open>
  func GetError(W, Q, X, Y *DenseMatrix) float64 {
      dot, err := X.TimesDense(Y)
      errcheck(err)
      err = Q.SubtractDense(dot)
      errcheck(err)
      Prod := SimpleTimes(Q, W)
      tosum := SimpleTimes(Prod, Prod)
      sum := SumMatrix(tosum)
      return sum
  }
  \<close>
  A nil result of \<^verbatim>\<open>SimpleTimes\<close> panics where its \<^verbatim>\<open>Array\<close> is taken next.
\<close>

definition GetError ::
  "(dense \<Rightarrow> bool) \<Rightarrow> store \<Rightarrow> dense \<Rightarrow> dense \<Rightarrow> dense \<Rightarrow> dense \<Rightarrow> (panic + float64) \<times> store" where
  "GetError shares s W Q X Y =
     (let (dot, err, s1) = TimesDense_store s X Y;
          (err', s2) = SubtractDense_store s1 Q dot;
          (Prod, s3) = SimpleTimes shares s2 Q W
      in case Prod of None \<Rightarrow> (Inl NilDereference, s3)
      | Some Prod' \<Rightarrow>
          (let (tosum, s4) = SimpleTimes shares s3 Prod' Prod'
           in case tosum of None \<Rightarrow> (Inl NilDereference, s4)
           | Some tosum' \<Rightarrow> (Inr (SumMatrix (load s4 tosum')), s4)))"

section \<open>Prediction\<close>

text \<open>
  \<^verbatim>\<open>
  func MatrixMinMinus(mat *DenseMatrix) *DenseMatrix {
      values := mat.Array()
      min := float64(100)
      for i := 0; i < len(values); i++ {
          if values[i] < min { min = values[i] }
      }
      for i := 0; i < len(values); i++ { values[i] -= min }
      return MakeDenseMatrix(values, mat.Rows(), mat.Cols())
  }
  \<close>
\<close>

function MatrixMinMinus_loop :: "addr \<Rightarrow> float64 \<Rightarrow> nat \<Rightarrow> nat \<Rightarrow> store \<Rightarrow> store" where
  "MatrixMinMinus_loop values mn i n s =
     (if i < n then
        MatrixMinMinus_loop values mn (i + 1) n
          (overwrite s values ((slices s values)[i := fsub (slices s values ! i) mn]))
      else s)"
  by pat_completeness auto
termination
  by (relation "measure (\<lambda>(values, mn, i, n, s). n - i)") auto

declare MatrixMinMinus_loop.simps [simp del]

definition MatrixMinMinus :: "(dense \<Rightarrow> bool) \<Rightarrow> store \<Rightarrow> dense \<Rightarrow> dense \<times> store" where
  "MatrixMinMinus shares s mat =
     (let (values, s1) = Array_store shares s mat;
          n = rows mat * cols mat;
          mn = foldl (\<lambda>min v. if flt v min then v else min) (Fin 100)
                 (take n (slices s1 values));
          s2 = MatrixMinMinus_loop values mn 0 n s1
      in (MakeDenseMatrix values (rows mat) (cols mat), s2))"

text \<open>
  \<^verbatim>\<open>
  func Predict(W, Q, Q_hat *DenseMatrix) []int {
      Qhat := Q_hat.Copy()
      Qhat = MatrixMinMinus(Qhat)
      maxRating := MatrixMax(Q)
      qhatMax := float64(maxRating) / MatrixMax(Qhat)
      Qhat.Scale(qhatMax)
      W.Scale(maxRating)
      err := Qhat.SubtractDense(W)
      errcheck(err)
      max_indices := make([]int, Qhat.Rows())
      for i := 0; i < Qhat.Rows(); i++ {
          i_row := Q_hat.rowSlice(i)
          max_indices[i] = argmax(i_row)
          fmt.Printf("User w/ID: %v will like product w/ID: %v \n", i, max_indices[i])
      }
      return max_indices
  }
  \<close>
  The row handed to \<^verbatim>\<open>argmax\<close> is a row of the argument \<^verbatim>\<open>Q_hat\<close>, not of the local
  \<^verbatim>\<open>Qhat\<close>. The model returns the indices, the local \<^verbatim>\<open>Qhat\<close> as it stands at the end, and
  the store.
\<close>

definition Predict ::
  "(dense \<Rightarrow> bool) \<Rightarrow> store \<Rightarrow> dense \<Rightarrow> dense \<Rightarrow> dense \<Rightarrow> nat list \<times> dense \<times> store" where
  "Predict shares s W Q Q_hat =
     (let (Qhat, s1) = Copy_store s Q_hat;
          (Qhat, s2) = MatrixMinMinus shares s1 Qhat;
          maxRating = MatrixMax (load s2 Q);
          qhatMax = fdiv maxRating (MatrixMax (load s2 Qhat));
          s3 = Scale_store s2 Qhat qhatMax;
          s4 = Scale_store s3 W maxRating;
          (err, s5) = SubtractDense_store s4 Qhat W;
          max_indices = map (\<lambda>i. argmax (rowSlice s5 Q_hat i)) [0..<rows Qhat]
      in (max_indices, Qhat, s5))"

section \<open>The statements of the specification\<close>

text \<open>
  The definitions of this section follow the words of the specification, not the code;
  the theorems compare them with the code.

  \<open>iterate n f x\<close> applies the step \<open>f\<close> exactly \<open>n\<close> times, and stops at the first
  step that panics.
\<close>

fun iterate :: "nat \<Rightarrow> ('a \<Rightarrow> panic + 'a) \<Rightarrow> 'a \<Rightarrow> panic + 'a" where
  "iterate 0 f x = Inr x"
| "iterate (Suc n) f x = (case f x of Inl e \<Rightarrow> Inl e | Inr y \<Rightarrow> iterate n f y)"

text \<open>The product \<open>A \<cdot> B\<close>, and the system matrix \<open>M \<cdot> M\<^sup>t + \<lambda>I\<close> of a half step.\<close>

definition matmul :: "matrix \<Rightarrow> matrix \<Rightarrow> matrix" where
  "matmul A B = fst (TimesDense A B)"

definition normal_matrix :: "matrix \<Rightarrow> matrix" where
  "normal_matrix M =
     fst (AddDense (matmul M (transposed M)) (Scale (Eye (rows M)) lambda))"

text \<open>
  \<open>is_solution A x B c\<close>: the column vector \<open>x\<close> solves \<open>A \<cdot> x = \<close> column \<open>c\<close> of \<open>B\<close>.
  \<open>exact_on solve A B\<close>: for each of the first \<open>cols A\<close> columns of \<open>B\<close>, the solve
  returns such a solution when that column stands first in its right-hand side.
\<close>

definition is_solution :: "matrix \<Rightarrow> matrix \<Rightarrow> matrix \<Rightarrow> nat \<Rightarrow> bool" where
  "is_solution A x B c =
     (well_formed x \<and> rows x = cols A \<and> cols x = 1 \<and>
      (\<forall>r<rows A. Get (matmul A x) r 0 = Get B r c))"

definition exact_on :: "solver \<Rightarrow> matrix \<Rightarrow> matrix \<Rightarrow> bool" where
  "exact_on solve A B =
     (\<forall>c<cols A. \<forall>b. well_formed b \<and> rows b = rows B \<and> cols b = cols B \<and>
          (\<forall>r<rows B. Get b r 0 = Get B r c) \<longrightarrow>
          (\<exists>x. fst (solve A b) = Some x \<and> is_solution A x B c))"

text \<open>
  \<open>solve_at solve A B c\<close>: what the solve for column \<open>c\<close> in \<^verbatim>\<open>MatrixSolver(A, B)\<close> hands
  back, the error set aside: the matrix it returns (\<open>None\<close> for nil), or the panic of the
  exchange of columns before it. The first solve is on \<open>A\<close> and \<open>B\<close> themselves, the
  others on a copy of \<open>A\<close> and on \<open>B\<close> with its columns \<open>0\<close> and \<open>c\<close> exchanged.
\<close>

definition solve_at :: "solver \<Rightarrow> matrix \<Rightarrow> matrix \<Rightarrow> nat \<Rightarrow> panic + matrix option" where
  "solve_at solve A B c =
     (if c = 0 then Inr (fst (solve A B))
      else case SwapCols B 0 c of Inl e \<Rightarrow> Inl e
           | Inr S \<Rightarrow> Inr (fst (solve (Copy A) S)))"

text \<open>
  \<open>is_maximum m S\<close>: \<open>m\<close> is the maximum of the values \<open>S\<close> in the order of Go's \<^verbatim>\<open>>\<close>: it
  is one of them, it is a number, and none of them is greater. Not-a-number is greater
  than nothing and nothing is greater than it, so it is no maximum and stands in the way
  of none.
\<close>

definition is_maximum :: "float64 \<Rightarrow> float64 set \<Rightarrow> bool" where
  "is_maximum m S = (m \<in> S \<and> m \<noteq> NaN \<and> (\<forall>x\<in>S. \<not> fgt x m))"

text \<open>
  \<open>frame s\<^sub>0 a\<^sub>0 s\<close>: the store \<open>s\<close> has every slice of \<open>s\<^sub>0\<close>, and each of them but the one
  at \<open>a\<^sub>0\<close> is as it was in \<open>s\<^sub>0\<close>.
\<close>

definition frame :: "store \<Rightarrow> addr \<Rightarrow> store \<Rightarrow> bool" where
  "frame s0 a0 s = (fresh s0 \<le> fresh s \<and> (\<forall>a<fresh s0. a \<noteq> a0 \<longrightarrow> slices s a = slices s0 a))"

section \<open>Example inputs\<close>

text \<open>Small matrices on which the theorems below are instantiated.\<close>

definition ex_I2 :: matrix where
  "ex_I2 = MakeDenseMatrix [Fin 1, Fin 0, Fin 0, Fin 1] 2 2"

definition ex_D :: matrix where
  "ex_D = MakeDenseMatrix [Fin 2, Fin 0, Fin 0, Fin 4] 2 2"

definition ex_B :: matrix where
  "ex_B = MakeDenseMatrix [Fin 2, Fin 4, Fin 12, Fin 8] 2 2"

definition ex_Q :: matrix where
  "ex_Q = MakeDenseMatrix [Fin 0, Fin 2, Fin 1, Fin 0] 2 2"

text \<open>A solve that fails on every system: it returns nil and an error.\<close>

definition nil_solve :: solver where
  "nil_solve A b = (None, Some ErrorDimensionMismatch)"

text \<open>
  A solve that works on one right-hand side only and fails, as \<open>nil_solve\<close> does, on every
  other one.
\<close>

definition nil_unless :: "matrix \<Rightarrow> solver" where
  "nil_unless B0 A b = (if b = B0 then diag_solve A b else nil_solve A b)"

text \<open>The singular matrix \<open>diag(1, 0)\<close> and a right-hand side for it.\<close>

definition ex_S :: matrix where
  "ex_S = MakeDenseMatrix [Fin 1, Fin 0, Fin 0, Fin 0] 2 2"

definition ex_C :: matrix where
  "ex_C = MakeDenseMatrix [Fin 1, Fin 1, Fin 1, Fin 0] 2 2"

text \<open>The solve \<open>s\<close> with its error values taken away.\<close>

definition without_errors :: "solver \<Rightarrow> solver" where
  "without_errors s = (\<lambda>A b. (fst (s A b), None))"

text \<open>
  A store with four \<open>1 \<times> 2\<close> and \<open>1 \<times> 1\<close> matrices for the weighted error, and one with
  three \<open>1 \<times> 3\<close> matrices for the prediction.
\<close>

definition ex_store :: store where
  "ex_store = [[Fin 1, Fin 0], [Fin 5, Fin 0], [Fin 1], [Fin 2, Fin 3]]"

definition ex_Wr :: dense where
  "ex_Wr = MakeDenseMatrix 0 1 2"

definition ex_Qr :: dense where
  "ex_Qr = MakeDenseMatrix 1 1 2"

definition ex_Xr :: dense where
  "ex_Xr = MakeDenseMatrix 2 1 1"

definition ex_Yr :: dense where
  "ex_Yr = MakeDenseMatrix 3 1 2"

definition ex_store' :: store where
  "ex_store' = [[Fin 0, Fin 0, Fin 1], [Fin 0, Fin 0, Fin 5], [Fin 1, Fin 2, Fin 3]]"

definition ex_W3 :: dense where
  "ex_W3 = MakeDenseMatrix 0 1 3"

definition ex_Q3 :: dense where
  "ex_Q3 = MakeDenseMatrix 1 1 3"

definition ex_Qhat3 :: dense where
  "ex_Qhat3 = MakeDenseMatrix 2 1 3"

text \<open>The two uniform choices of \<^verbatim>\<open>Array()\<close>: always the matrix's own slice, always a copy.\<close>

definition always_shares :: "dense \<Rightarrow> bool" where
  "always_shares A = True"

definition never_shares :: "dense \<Rightarrow> bool" where
  "never_shares A = False"

section \<open>Properties\<close>

lemma index_in_range: "i < r \<Longrightarrow> j < c \<Longrightarrow> i * c + j < r * (c::nat)"
proof -
  assume a: "i < r" "j < c"
  then have "i * c + j < i * c + c" by simp
  also have "\<dots> = Suc i * c" by simp
  also have "\<dots> \<le> r * c" using a(1) by (intro mult_le_mono1) simp
  finally show ?thesis .
qed

subsection \<open>The observation mask\<close>

text \<open>
  C6. The mask has the shape of the rating matrix; an entry of the mask is 0 exactly
  where the rating is the missing sentinel (zero or not-a-number), and 1 everywhere
  else.
\<close>

theorem MakeWeightMatrix_mask:
  assumes "well_formed Q"
  shows "rows (MakeWeightMatrix Q) = rows Q \<and> cols (MakeWeightMatrix Q) = cols Q \<and>
         well_formed (MakeWeightMatrix Q) \<and>
         (\<forall>i j. i < rows Q \<longrightarrow> j < cols Q \<longrightarrow>
            (Get (MakeWeightMatrix Q) i j = Fin 0 \<longleftrightarrow> Get Q i j = Fin 0 \<or> Get Q i j = NaN) \<and>
            (Get (MakeWeightMatrix Q) i j = Fin 1 \<longleftrightarrow> \<not> (Get Q i j = Fin 0 \<or> Get Q i j = NaN)))"
proof -
  have shape: "rows (MakeWeightMatrix Q) = rows Q" "cols (MakeWeightMatrix Q) = cols Q"
    by (simp_all add: MakeWeightMatrix_def MakeDenseMatrix_def Let_def)
  have len: "well_formed (MakeWeightMatrix Q)"
    using assms by (simp add: MakeWeightMatrix_def MakeDenseMatrix_def Let_def well_formed_def Array_def)
  have entry: "Get (MakeWeightMatrix Q) i j =
        (if Get Q i j = Fin 0 \<or> Get Q i j = NaN then Fin 0 else Fin 1)"
    if "i < rows Q" "j < cols Q" for i j
  proof -
    have "i * cols Q + j < length (elements Q)"
      using that assms index_in_range by (simp add: well_formed_def)
    then show ?thesis
      using assms
      by (auto simp: MakeWeightMatrix_def MakeDenseMatrix_def Let_def Get_def Array_def
          well_formed_def feq_def IsNaN_def)
  qed
  show ?thesis using shape len entry by simp
qed

theorem MakeWeightMatrix_mask_witness:
  "well_formed (MakeDenseMatrix [Fin 5, Fin 0, NaN, Fin 1] 2 2) \<and>
   Array (MakeWeightMatrix (MakeDenseMatrix [Fin 5, Fin 0, NaN, Fin 1] 2 2))
     = [Fin 1, Fin 0, Fin 0, Fin 1] \<and>
   Get (MakeWeightMatrix (MakeDenseMatrix [Fin 5, Fin 0, NaN, Fin 1] 2 2)) 1 0 = Fin 0 \<and>
   Get (MakeWeightMatrix (MakeDenseMatrix [Fin 5, Fin 0, NaN, Fin 1] 2 2)) 1 1 = Fin 1"
proof -
  let ?Q = "MakeDenseMatrix [Fin 5, Fin 0, NaN, Fin 1] 2 2"
  have h: "well_formed ?Q" by (simp add: well_formed_def MakeDenseMatrix_def)
  have a: "Array (MakeWeightMatrix ?Q) = [Fin 1, Fin 0, Fin 0, Fin 1]"
    by (simp add: MakeWeightMatrix_def MakeDenseMatrix_def Array_def feq_def IsNaN_def)
  have g: "Get ?Q 1 0 = NaN" "Get ?Q 1 1 = Fin 1"
    by (simp_all add: Get_def MakeDenseMatrix_def)
  have r: "(1::nat) < rows ?Q" "(0::nat) < cols ?Q" "(1::nat) < cols ?Q"
    by (simp_all add: MakeDenseMatrix_def)
  from MakeWeightMatrix_mask [OF h] r g
  have "Get (MakeWeightMatrix ?Q) 1 0 = Fin 0" "Get (MakeWeightMatrix ?Q) 1 1 = Fin 1"
    by auto
  with h a show ?thesis by simp
qed


subsection \<open>Entries of built matrices\<close>

lemma build_shape [simp]:
  "rows (build r c f) = r" "cols (build r c f) = c" "well_formed (build r c f)"
  by (simp_all add: build_def MakeDenseMatrix_def well_formed_def)

lemma Get_build [simp]: "i < r \<Longrightarrow> j < c \<Longrightarrow> Get (build r c f) i j = f i j"
proof -
  assume a: "i < r" "j < c"
  then have "i * c + j < r * c" by (rule index_in_range)
  then show ?thesis
    using a by (simp add: build_def MakeDenseMatrix_def Get_def)
qed

lemma build_cong:
  assumes "\<And>i j. i < r \<Longrightarrow> j < c \<Longrightarrow> f i j = g i j"
  shows "build r c f = build r c g"
proof -
  have "f (n div c) (n mod c) = g (n div c) (n mod c)" if "n < r * c" for n
  proof -
    have "0 < c" using that by (cases c) auto
    moreover have "n div c < r" using that by (simp add: less_mult_imp_div_less)
    ultimately show ?thesis using assms by simp
  qed
  then have "map (\<lambda>n. f (n div c) (n mod c)) [0..<r * c] = map (\<lambda>n. g (n div c) (n mod c)) [0..<r * c]"
    by (intro map_cong) auto
  then show ?thesis by (simp only: build_def)
qed

lemma build_Get:
  assumes "well_formed A"
  shows "build (rows A) (cols A) (Get A) = A"
proof -
  have "map (\<lambda>n. Get A (n div cols A) (n mod cols A)) [0..<rows A * cols A]
        = map (\<lambda>n. elements A ! n) [0..<length (elements A)]"
    using assms by (simp add: Get_def well_formed_def)
  also have "\<dots> = elements A" by (rule map_nth)
  finally show ?thesis by (simp add: build_def MakeDenseMatrix_def)
qed

lemma matrix_eqI:
  assumes "well_formed A" "well_formed B" "rows A = rows B" "cols A = cols B"
    and "\<And>i j. i < rows A \<Longrightarrow> j < cols A \<Longrightarrow> Get A i j = Get B i j"
  shows "A = B"
proof -
  have "build (rows A) (cols A) (Get A) = build (rows A) (cols A) (Get B)"
    using assms(5) by (rule build_cong)
  then show ?thesis using build_Get assms(1-4) by metis
qed

lemma Array_well_formed: "well_formed A \<Longrightarrow> Array A = elements A"
  by (simp add: Array_def well_formed_def)

lemma Copy_well_formed: "well_formed A \<Longrightarrow> Copy A = A"
  by (simp add: Copy_def Array_well_formed MakeDenseMatrix_def)

lemma transposed_shape [simp]:
  "rows (transposed A) = cols A" "cols (transposed A) = rows A" "well_formed (transposed A)"
  by (simp_all add: transposed_def)

lemma Get_transposed [simp]:
  "i < cols A \<Longrightarrow> j < rows A \<Longrightarrow> Get (transposed A) i j = Get A j i"
  by (simp add: transposed_def)

lemma Transpose_well_formed: "well_formed A \<Longrightarrow> Transpose A = Inr (transposed A)"
  by (simp add: Transpose_def well_formed_def)

lemma transposed_twice: "well_formed A \<Longrightarrow> transposed (transposed A) = A"
  by (rule matrix_eqI) simp_all

lemma matmul_shape [simp]:
  "rows (matmul A B) = rows A" "cols (matmul A B) = cols B" "well_formed (matmul A B)"
  by (simp_all add: matmul_def TimesDense_def Zeros_def)

lemma Get_matmul:
  "cols A = rows B \<Longrightarrow> i < rows A \<Longrightarrow> j < cols B \<Longrightarrow>
   Get (matmul A B) i j = fsum (map (\<lambda>l. fmul (Get A i l) (Get B l j)) [0..<cols A])"
  by (simp add: matmul_def TimesDense_def)

lemma Scale_shape [simp]:
  "rows (Scale A f) = rows A" "cols (Scale A f) = cols A"
  "well_formed (Scale A f) = well_formed A"
  by (simp_all add: Scale_def well_formed_def)

lemma AddDense_shape [simp]:
  "rows (fst (AddDense A B)) = rows A" "cols (fst (AddDense A B)) = cols A"
  "well_formed A \<Longrightarrow> well_formed (fst (AddDense A B))"
  by (simp_all add: AddDense_def)

lemma normal_matrix_shape [simp]:
  "rows (normal_matrix M) = rows M" "cols (normal_matrix M) = rows M"
  "well_formed (normal_matrix M)"
  by (simp_all add: normal_matrix_def)

subsection \<open>The maximum of a matrix\<close>

lemma fgt_NaN [simp]: "\<not> fgt x NaN" "\<not> fgt NaN x"
  by (cases x, simp_all)+

lemma fgt_irrefl [simp]: "\<not> fgt x x"
  by (cases x) simp_all

lemma fgt_trans: "fgt a b \<Longrightarrow> fgt b c \<Longrightarrow> fgt a c"
  by (cases a; cases b; cases c) simp_all

lemma fgt_le_trans: "fgt a b \<Longrightarrow> \<not> fgt c b \<Longrightarrow> c \<noteq> NaN \<Longrightarrow> fgt a c"
  by (cases a; cases b; cases c) simp_all

lemma fgt_total: "a \<noteq> NaN \<Longrightarrow> b \<noteq> NaN \<Longrightarrow> \<not> fgt a b \<Longrightarrow> \<not> fgt b a \<Longrightarrow> a = b"
  by (cases a; cases b) simp_all

lemma max_scan:
  assumes "m \<noteq> NaN"
  shows "is_maximum (foldl (\<lambda>max v. if fgt v max then v else max) m xs) (insert m (set xs))"
  using assms
proof (induction xs arbitrary: m)
  case Nil
  then show ?case by (simp add: is_maximum_def)
next
  case (Cons v xs)
  let ?f = "\<lambda>max v. if fgt v max then v else max"
  show ?case
  proof (cases "fgt v m")
    case True
    then have v: "v \<noteq> NaN" by auto
    let ?r = "foldl ?f v xs"
    have r: "is_maximum ?r (insert v (set xs))" using v by (rule Cons.IH)
    have "\<not> fgt m ?r"
    proof
      assume "fgt m ?r"
      with True have "fgt v ?r" by (rule fgt_trans)
      with r show False by (simp add: is_maximum_def)
    qed
    moreover have "foldl ?f m (v # xs) = ?r" using True by simp
    ultimately show ?thesis using r by (auto simp: is_maximum_def)
  next
    case False
    let ?r = "foldl ?f m xs"
    have r: "is_maximum ?r (insert m (set xs))" using Cons.prems by (rule Cons.IH)
    have "\<not> fgt v ?r"
    proof
      assume "fgt v ?r"
      moreover have "\<not> fgt m ?r" using r by (simp add: is_maximum_def)
      ultimately have "fgt v m" using Cons.prems by (rule fgt_le_trans)
      with False show False by simp
    qed
    moreover have "foldl ?f m (v # xs) = ?r" using False by simp
    ultimately show ?thesis using r by (auto simp: is_maximum_def)
  qed
qed

lemma is_maximum_unique: "is_maximum m S \<Longrightarrow> is_maximum m' S \<Longrightarrow> m' = m"
  unfolding is_maximum_def by (blast intro: fgt_total)

lemma max_scan_finite:
  "foldl (\<lambda>max v. if fgt v max then v else max) (Fin m) (map Fin xs) = Fin (Max (insert m (set xs)))"
proof (induction xs arbitrary: m)
  case Nil
  show ?case by simp
next
  case (Cons x xs)
  have step: "foldl (\<lambda>max v. if fgt v max then v else max) (Fin m) (map Fin (x # xs)) =
        foldl (\<lambda>max v. if fgt v max then v else max) (Fin (max m x)) (map Fin xs)"
    by (simp add: max_def)
  have "Max (insert (max m x) (set xs)) = Max (insert m (insert x (set xs)))"
  proof (cases "set xs = {}")
    case True
    then show ?thesis by simp
  next
    case False
    then show ?thesis by (simp add: max.assoc)
  qed
  then show ?case using step Cons.IH [of "max m x"] by simp
qed

lemma finite_list: "\<forall>x\<in>set xs. is_Fin x \<Longrightarrow> xs = map Fin (map val xs)"
proof (induction xs)
  case Nil show ?case by simp
next
  case (Cons x xs)
  then show ?case by (cases x) auto
qed

text \<open>
  C10. For every matrix, whatever its entries (finite, infinite or not-a-number),
  \<^verbatim>\<open>MatrixMax\<close> returns the maximum of 0 and the entries in the order of Go's \<^verbatim>\<open>>\<close>, and
  that maximum is unique: an entry that is not-a-number is never greater than the running
  maximum, so it is passed over, and the result is never not-a-number. The result is 0
  exactly when no entry is greater than 0; in particular it is 0, not the largest entry,
  when every entry is strictly negative. When all entries are finite it is the real number
  \<open>max(0, largest entry)\<close>.
\<close>

theorem MatrixMax_floor_zero:
  "is_maximum (MatrixMax A) (insert (Fin 0) (set (Array A))) \<and>
   (\<forall>m. is_maximum m (insert (Fin 0) (set (Array A))) \<longrightarrow> m = MatrixMax A) \<and>
   (MatrixMax A = Fin 0 \<longleftrightarrow> (\<forall>x\<in>set (Array A). \<not> fgt x (Fin 0))) \<and>
   ((\<forall>x\<in>set (Array A). flt x (Fin 0)) \<longrightarrow> MatrixMax A = Fin 0) \<and>
   ((\<forall>x\<in>set (Array A). is_Fin x) \<longrightarrow>
      MatrixMax A = Fin (Max (insert 0 (val ` set (Array A)))))"
proof -
  let ?S = "insert (Fin 0) (set (Array A))"
  have mx: "is_maximum (MatrixMax A) ?S"
    unfolding MatrixMax_def Let_def by (rule max_scan) simp
  have uniq: "\<forall>m. is_maximum m ?S \<longrightarrow> m = MatrixMax A"
    using mx by (blast intro: is_maximum_unique)
  have zero: "MatrixMax A = Fin 0 \<longleftrightarrow> (\<forall>x\<in>set (Array A). \<not> fgt x (Fin 0))"
  proof
    assume "MatrixMax A = Fin 0"
    with mx show "\<forall>x\<in>set (Array A). \<not> fgt x (Fin 0)" by (simp add: is_maximum_def)
  next
    assume "\<forall>x\<in>set (Array A). \<not> fgt x (Fin 0)"
    then have "is_maximum (Fin 0) ?S" by (simp add: is_maximum_def)
    with uniq show "MatrixMax A = Fin 0" by auto
  qed
  have neg: "MatrixMax A = Fin 0" if n: "\<forall>x\<in>set (Array A). flt x (Fin 0)"
  proof -
    have "\<not> fgt x (Fin 0)" if "x \<in> set (Array A)" for x
    proof
      assume "fgt x (Fin 0)"
      moreover have "fgt (Fin 0) x" using n that by (simp add: flt_def)
      ultimately have "fgt x x" by (rule fgt_trans)
      then show False by simp
    qed
    with zero show ?thesis by blast
  qed
  have fin: "MatrixMax A = Fin (Max (insert 0 (val ` set (Array A))))"
    if f: "\<forall>x\<in>set (Array A). is_Fin x"
  proof -
    have e: "Array A = map Fin (map val (Array A))" using f by (rule finite_list)
    have "MatrixMax A =
          foldl (\<lambda>max v. if fgt v max then v else max) (Fin 0) (map Fin (map val (Array A)))"
      unfolding MatrixMax_def Let_def using e by simp
    then show ?thesis using max_scan_finite [of 0 "map val (Array A)"] by simp
  qed
  from mx uniq zero neg fin show ?thesis by blast
qed

theorem MatrixMax_floor_zero_witness:
  "MatrixMax (MakeDenseMatrix [Fin 5, NaN, Fin 7] 1 3) = Fin 7 \<and>
   MatrixMax (MakeDenseMatrix [Fin 5, PInf] 1 2) = PInf \<and>
   MatrixMax (MakeDenseMatrix [NaN, NInf, Fin (- 1)] 1 3) = Fin 0 \<and>
   flt (Fin (- 3)) (Fin 0) \<and> flt (Fin (- 1)) (Fin 0) \<and> flt NInf (Fin 0) \<and>
   MatrixMax (MakeDenseMatrix [Fin (- 3), Fin (- 1), NInf, Fin (- 1)] 2 2) = Fin 0 \<and>
   is_Fin (Fin (- 3)) \<and> is_Fin (Fin 4) \<and> is_Fin (Fin 2) \<and> is_Fin (Fin (- 7)) \<and>
   MatrixMax (MakeDenseMatrix [Fin (- 3), Fin 4, Fin 2, Fin (- 7)] 2 2) = Fin 4"
proof -
  let ?A = "MakeDenseMatrix [Fin 5, NaN, Fin 7] 1 3"
  let ?B = "MakeDenseMatrix [Fin 5, PInf] 1 2"
  let ?C = "MakeDenseMatrix [NaN, NInf, Fin (- 1)] 1 3"
  let ?D = "MakeDenseMatrix [Fin (- 3), Fin (- 1), NInf, Fin (- 1)] 2 2"
  let ?E = "MakeDenseMatrix [Fin (- 3), Fin 4, Fin 2, Fin (- 7)] 2 2"
  have arr: "Array ?A = [Fin 5, NaN, Fin 7]" "Array ?B = [Fin 5, PInf]"
    "Array ?C = [NaN, NInf, Fin (- 1)]" "Array ?D = [Fin (- 3), Fin (- 1), NInf, Fin (- 1)]"
    "Array ?E = [Fin (- 3), Fin 4, Fin 2, Fin (- 7)]"
    by (simp_all add: Array_def MakeDenseMatrix_def)
  have "is_maximum (Fin 7) (insert (Fin 0) (set (Array ?A)))"
    unfolding arr by (simp add: is_maximum_def)
  then have a: "MatrixMax ?A = Fin 7"
    using MatrixMax_floor_zero [of ?A] by metis
  have "is_maximum PInf (insert (Fin 0) (set (Array ?B)))"
    unfolding arr by (simp add: is_maximum_def)
  then have b: "MatrixMax ?B = PInf"
    using MatrixMax_floor_zero [of ?B] by metis
  have "\<forall>x\<in>set (Array ?C). \<not> fgt x (Fin 0)" unfolding arr by simp
  then have c: "MatrixMax ?C = Fin 0"
    using MatrixMax_floor_zero [of ?C] by blast
  have n: "flt (Fin (- 3)) (Fin 0)" "flt (Fin (- 1)) (Fin 0)" "flt NInf (Fin 0)"
    by (simp_all add: flt_def)
  then have "\<forall>x\<in>set (Array ?D). flt x (Fin 0)" unfolding arr by simp
  then have d: "MatrixMax ?D = Fin 0"
    using MatrixMax_floor_zero [of ?D] by blast
  have "\<forall>x\<in>set (Array ?E). is_Fin x" unfolding arr by simp
  then have "MatrixMax ?E = Fin (Max (insert 0 (val ` set (Array ?E))))"
    using MatrixMax_floor_zero [of ?E] by blast
  then have e: "MatrixMax ?E = Fin 4" unfolding arr by simp
  from a b c d e n show ?thesis by simp
qed


subsection \<open>Solving column by column\<close>

lemma SwapRows_in_range:
  "i < rows A \<Longrightarrow> j < rows A \<Longrightarrow>
   SwapRows A i j = Inr (build (rows A) (cols A)
      (\<lambda>r c. Get A (if r = i then j else if r = j then i else r) c))"
  by (simp add: SwapRows_def)

lemma SwapCols_first:
  assumes "well_formed B" "c < cols B"
  shows "\<exists>S. SwapCols B 0 c = Inr S \<and> well_formed S \<and> rows S = rows B \<and> cols S = cols B \<and>
             (\<forall>r<rows B. Get S r 0 = Get B r c)"
proof -
  let ?T = "build (cols B) (rows B)
      (\<lambda>r c'. Get (transposed B) (if r = 0 then c else if r = c then 0 else r) c')"
  have "SwapRows (transposed B) 0 c = Inr ?T"
    using assms by (simp add: SwapRows_in_range)
  then have s: "SwapCols B 0 c = Inr (transposed ?T)"
    using assms by (simp add: SwapCols_def Copy_well_formed Transpose_well_formed)
  have "Get (transposed ?T) r 0 = Get B r c" if "r < rows B" for r
    using that assms by simp
  with s show ?thesis by simp
qed

lemma MatrixSolver_loop_result:
  assumes "well_formed mat"
    and "\<And>c. i \<le> c \<Longrightarrow> c < cols mat \<Longrightarrow>
           \<exists>S. SwapCols outcome 0 c = Inr S \<and> fst (solve mat S) = Some (sol c)"
  shows "MatrixSolver_loop solve mat outcome i rws =
         Inr (rws @ concat (map (\<lambda>c. Array (sol c)) [i..<cols mat]))"
  using assms(2)
proof (induction "cols mat - i" arbitrary: i rws)
  case 0
  then have "\<not> i < cols mat" by simp
  then show ?case by (subst MatrixSolver_loop.simps) simp
next
  case (Suc n)
  then have lt: "i < cols mat" by simp
  obtain S where S: "SwapCols outcome 0 i = Inr S" "fst (solve mat S) = Some (sol i)"
    using Suc.prems [of i] lt by auto
  have n: "n = cols mat - (i + 1)" using Suc.hyps(2) by simp
  have step: "MatrixSolver_loop solve mat outcome (i + 1) (rws @ Array (sol i)) =
        Inr ((rws @ Array (sol i)) @ concat (map (\<lambda>c. Array (sol c)) [i + 1..<cols mat]))"
    using Suc.hyps(1) [OF n] Suc.prems by simp
  have "MatrixSolver_loop solve mat outcome i rws =
        MatrixSolver_loop solve mat outcome (i + 1) (rws @ Array (sol i))"
    using lt S assms(1) by (subst MatrixSolver_loop.simps) (simp add: Copy_well_formed)
  with step show ?case using lt by (simp add: upt_conv_Cons)
qed

lemma length_concat_uniform:
  "\<forall>c<n. length (f c) = k \<Longrightarrow> length (concat (map f [0..<n])) = n * k"
  by (induction n) simp_all

lemma nth_concat_uniform:
  assumes "\<forall>c<n. length (f c) = k" "i < n" "j < k"
  shows "concat (map f [0..<n]) ! (i * k + j) = f i ! j"
  using assms(1,2)
proof (induction n)
  case 0
  then show ?case by simp
next
  case (Suc n)
  have len: "length (concat (map f [0..<n])) = n * k"
    using Suc.prems(1) by (intro length_concat_uniform) simp
  show ?case
  proof (cases "i < n")
    case True
    then have "i * k + j < n * k" using assms(3) by (rule index_in_range)
    then show ?thesis using Suc True len by (simp add: nth_append)
  next
    case False
    then have "i = n" using Suc.prems(2) by simp
    then show ?thesis using len by (simp add: nth_append)
  qed
qed

lemma MatrixSolver_exact:
  assumes A: "well_formed A" "rows A = k" "cols A = k" "0 < k"
    and B: "well_formed B" "rows B = k" "k \<le> cols B"
    and ex: "exact_on solve A B"
  shows "\<exists>M. MatrixSolver solve A B = Inr M \<and> well_formed M \<and> rows M = k \<and> cols M = k \<and>
             (\<forall>c<k. \<forall>r<k. Get (matmul A (transposed M)) r c = Get B r c)"
proof -
  have each: "\<exists>x. (c = 0 \<longrightarrow> fst (solve A B) = Some x) \<and>
            (0 < c \<longrightarrow> (\<exists>S. SwapCols B 0 c = Inr S \<and> fst (solve A S) = Some x)) \<and>
            is_solution A x B c" if ck: "c < k" for c
  proof (cases "c = 0")
    case True
    then show ?thesis
      using ex ck A(3) B(1) unfolding exact_on_def by fastforce
  next
    case False
    obtain S where S: "SwapCols B 0 c = Inr S" "well_formed S" "rows S = rows B"
      "cols S = cols B" "\<forall>r<rows B. Get S r 0 = Get B r c"
      using SwapCols_first [of B c] B(1,3) ck by auto
    obtain x where "fst (solve A S) = Some x" "is_solution A x B c"
      using ex S(2-5) ck A(3) unfolding exact_on_def by blast
    with S(1) False show ?thesis by auto
  qed
  then have "\<exists>sol. \<forall>c<k. (c = 0 \<longrightarrow> fst (solve A B) = Some (sol c)) \<and>
            (0 < c \<longrightarrow> (\<exists>S. SwapCols B 0 c = Inr S \<and> fst (solve A S) = Some (sol c))) \<and>
            is_solution A (sol c) B c"
    by metis
  then obtain sol where sol: "\<And>c. c < k \<Longrightarrow> (c = 0 \<longrightarrow> fst (solve A B) = Some (sol c)) \<and>
            (0 < c \<longrightarrow> (\<exists>S. SwapCols B 0 c = Inr S \<and> fst (solve A S) = Some (sol c))) \<and>
            is_solution A (sol c) B c"
    by blast
  have first: "fst (solve A B) = Some (sol 0)" using sol [of 0] A(4) by simp
  have rest: "\<exists>S. SwapCols B 0 c = Inr S \<and> fst (solve A S) = Some (sol c)"
    if "1 \<le> c" "c < cols A" for c
    using sol [of c] that A(3) by simp
  have is_sol: "is_solution A (sol c) B c" if "c < k" for c using sol that by simp
  have arr: "Array (sol c) = elements (sol c)" "length (elements (sol c)) = k" if "c < k" for c
    using is_sol [OF that] A(3) by (simp_all add: is_solution_def Array_well_formed well_formed_def)
  let ?es = "concat (map (\<lambda>c. Array (sol c)) [0..<k])"
  let ?M = "MakeDenseMatrix ?es k k"
  have "MatrixSolver_loop solve A B 1 ([] @ Array (sol 0)) =
        Inr (([] @ Array (sol 0)) @ concat (map (\<lambda>c. Array (sol c)) [1..<cols A]))"
    using A(1) rest by (rule MatrixSolver_loop_result)
  moreover have "[0..<k] = 0 # [1..<k]" using A(4) by (simp add: upt_conv_Cons)
  ultimately have loop: "MatrixSolver_loop solve A B 1 ([] @ Array (sol 0)) = Inr ?es"
    using A(3) by simp
  have run: "MatrixSolver solve A B = Inr ?M"
    using first loop A(2,3) by (simp add: MatrixSolver_def)
  have len: "\<forall>c<k. length (Array (sol c)) = k" using arr by simp
  have wfM: "well_formed ?M"
    using length_concat_uniform [OF len] by (simp add: well_formed_def MakeDenseMatrix_def)
  have entry: "Get ?M c l = Get (sol c) l 0" if "c < k" "l < k" for c l
  proof -
    have "Get ?M c l = ?es ! (c * k + l)" by (simp add: Get_def MakeDenseMatrix_def)
    also have "\<dots> = Array (sol c) ! l" using len that by (rule nth_concat_uniform)
    also have "\<dots> = Get (sol c) l 0"
      using is_sol [OF that(1)] arr(1) [OF that(1)] by (simp add: Get_def is_solution_def)
    finally show ?thesis .
  qed
  have "Get (matmul A (transposed ?M)) r c = Get B r c" if "c < k" "r < k" for c r
  proof -
    have "Get (matmul A (transposed ?M)) r c =
          fsum (map (\<lambda>l. fmul (Get A r l) (Get (transposed ?M) l c)) [0..<cols A])"
      using that A by (intro Get_matmul) (simp_all add: MakeDenseMatrix_def)
    also have "\<dots> = fsum (map (\<lambda>l. fmul (Get A r l) (Get (sol c) l 0)) [0..<cols A])"
    proof -
      have "Get (transposed ?M) l c = Get (sol c) l 0" if "l < k" for l
        using entry [OF \<open>c < k\<close> that] that \<open>c < k\<close> by (simp add: MakeDenseMatrix_def)
      then have "map (\<lambda>l. fmul (Get A r l) (Get (transposed ?M) l c)) [0..<cols A] =
                 map (\<lambda>l. fmul (Get A r l) (Get (sol c) l 0)) [0..<cols A]"
        using A(3) by (intro map_cong) auto
      then show ?thesis by (rule arg_cong)
    qed
    also have "\<dots> = Get (matmul A (sol c)) r 0"
      using is_sol [OF that(1)] that A by (subst Get_matmul) (simp_all add: is_solution_def)
    also have "\<dots> = Get B r c"
      using is_sol [OF that(1)] that A by (simp add: is_solution_def)
    finally show ?thesis .
  qed
  with run wfM show ?thesis by (simp add: MakeDenseMatrix_def)
qed


lemma diag_solve_2x2:
  assumes b: "rows b = 2" "Get b 0 0 = Fin u" "Get b (Suc 0) 0 = Fin v"
    and nz: "a \<noteq> 0" "d \<noteq> 0"
  shows "diag_solve (MakeDenseMatrix [Fin a, Fin 0, Fin 0, Fin d] 2 2) b =
           (Some (MakeDenseMatrix [Fin (u / a), Fin (v / d)] 2 1), None)"
proof -
  let ?D = "MakeDenseMatrix [Fin a, Fin 0, Fin 0, Fin d] 2 2"
  have D: "rows ?D = 2" "cols ?D = 2" "Get ?D 0 0 = Fin a" "Get ?D 0 (Suc 0) = Fin 0"
    "Get ?D (Suc 0) 0 = Fin 0" "Get ?D (Suc 0) (Suc 0) = Fin d"
    by (simp_all add: MakeDenseMatrix_def Get_def)
  have up: "[0..<2] = [0, Suc 0]" "[Suc 0..<2] = [Suc 0]" "[2..<2] = []" "[Suc (Suc 0)..<2] = []"
    by (simp_all add: numeral_2_eq_2)
  have rp: "replicate 2 (Fin 0) = [Fin 0, Fin 0]" by (simp add: numeral_2_eq_2)
  have l: "solveLower ?D b = MakeDenseMatrix [Fin u, Fin v] 2 1"
    unfolding solveLower_def D up rp using b(2,3) by (simp add: D fsub_def)
  have g: "Get (MakeDenseMatrix [Fin u, Fin v] 2 (Suc 0)) 0 0 = Fin u"
    "Get (MakeDenseMatrix [Fin u, Fin v] 2 (Suc 0)) (Suc 0) 0 = Fin v"
    by (simp_all add: MakeDenseMatrix_def Get_def)
  have u: "solveUpper ?D (MakeDenseMatrix [Fin u, Fin v] 2 1) =
           MakeDenseMatrix [Fin (u / a), Fin (v / d)] 2 1"
    unfolding solveUpper_def D up rp using nz by (simp add: D g up fsub_def)
  show ?thesis unfolding diag_solve_def l u using b(1) by (simp add: D)
qed

lemma diag_solve_exact_2x2:
  assumes nz: "a \<noteq> 0" "d \<noteq> 0"
  shows "exact_on diag_solve (MakeDenseMatrix [Fin a, Fin 0, Fin 0, Fin d] 2 2)
           (MakeDenseMatrix [Fin p, Fin q, Fin r, Fin s] 2 2)"
  unfolding exact_on_def
proof (intro allI impI)
  let ?D = "MakeDenseMatrix [Fin a, Fin 0, Fin 0, Fin d] 2 2"
  let ?B = "MakeDenseMatrix [Fin p, Fin q, Fin r, Fin s] 2 2"
  fix c b
  assume c: "c < cols ?D"
    and b: "well_formed b \<and> rows b = rows ?B \<and> cols b = cols ?B \<and>
            (\<forall>r<rows ?B. Get b r 0 = Get ?B r c)"
  define u where "u = (if c = 0 then p else q)"
  define v where "v = (if c = 0 then r else s)"
  let ?x = "MakeDenseMatrix [Fin (u / a), Fin (v / d)] 2 1"
  have c01: "c = 0 \<or> c = 1" using c by (auto simp: MakeDenseMatrix_def)
  have Bc: "Get ?B 0 c = Fin u" "Get ?B (Suc 0) c = Fin v"
    using c01 by (auto simp: u_def v_def MakeDenseMatrix_def Get_def)
  have b0: "rows b = 2" "Get b 0 0 = Fin u" "Get b (Suc 0) 0 = Fin v"
    using b Bc by (simp_all add: MakeDenseMatrix_def)
  have s: "fst (diag_solve ?D b) = Some ?x"
    using diag_solve_2x2 [OF b0 nz] by simp
  have g: "Get (matmul ?D ?x) i 0 = Get ?B i c" if "i < 2" for i
  proof -
    have i01: "i = 0 \<or> i = Suc 0" using that by auto
    have "Get (matmul ?D ?x) i 0 =
          fsum (map (\<lambda>l. fmul (Get ?D i l) (Get ?x l 0)) [0..<cols ?D])"
      using that by (intro Get_matmul) (simp_all add: MakeDenseMatrix_def)
    also have "\<dots> = fadd (fadd (Fin 0) (fmul (Get ?D i 0) (Fin (u / a))))
                           (fmul (Get ?D i (Suc 0)) (Fin (v / d)))"
      by (simp add: fsum_def MakeDenseMatrix_def numeral_2_eq_2 Get_def)
    also have "\<dots> = Get ?B i c"
      using i01 nz Bc by (auto simp: MakeDenseMatrix_def Get_def)
    finally show ?thesis .
  qed
  have "is_solution ?D ?x ?B c"
    using g by (simp add: is_solution_def MakeDenseMatrix_def well_formed_def)
  with s show "\<exists>x. fst (diag_solve ?D b) = Some x \<and> is_solution ?D x ?B c" by blast
qed

lemma MatrixSolver_square:
  assumes "well_formed A" "rows A = k" "cols A = k" "0 < k"
    and "well_formed B" "rows B = k" "cols B = k"
    and "exact_on solve A B"
  shows "\<exists>M. MatrixSolver solve A B = Inr M \<and> well_formed M \<and> rows M = k \<and> cols M = k \<and>
             matmul A (transposed M) = B"
proof -
  obtain M where M: "MatrixSolver solve A B = Inr M" "well_formed M" "rows M = k" "cols M = k"
    "\<forall>c<k. \<forall>r<k. Get (matmul A (transposed M)) r c = Get B r c"
    using MatrixSolver_exact [OF assms(1-6) _ assms(8)] assms(7) by auto
  have "matmul A (transposed M) = B"
    using M(3-5) assms by (intro matrix_eqI) simp_all
  with M show ?thesis by blast
qed

text \<open>
  C7. \<^verbatim>\<open>MatrixSolver\<close> does not return the \<open>X\<close> with \<open>A \<cdot> X = B\<close> that its comment and the
  specification promise. It appends the solution of each column to a flat slice and wraps
  that slice row by row, so the solutions are the rows of the result, and it solves as
  many columns as \<open>A\<close> has, not as many as \<open>B\<close> has. For \<open>A = diag(2, 4)\<close>:
  on \<open>B = [[2, 4], [12, 8]]\<close> it returns \<open>[[1, 3], [2, 2]]\<close>, which does not satisfy
  \<open>A \<cdot> X = B\<close>, while \<open>[[1, 2], [3, 2]]\<close> does; on the \<open>2 \<times> 3\<close> right-hand side
  \<open>[[2, 4, 6], [12, 8, 4]]\<close> it returns the same \<open>2 \<times> 2\<close> matrix, the third column is
  never solved, and the solution is the \<open>2 \<times> 3\<close> matrix \<open>[[1, 2, 3], [3, 2, 1]]\<close>; on the
  \<open>2 \<times> 1\<close> right-hand side \<open>[[2], [12]]\<close> it panics, exchanging the first column with a
  second one that does not exist.
\<close>

theorem MatrixSolver_returns_transpose:
  "MatrixSolver diag_solve ex_D ex_B = Inr (MakeDenseMatrix [Fin 1, Fin 3, Fin 2, Fin 2] 2 2) \<and>
   matmul ex_D (MakeDenseMatrix [Fin 1, Fin 3, Fin 2, Fin 2] 2 2) \<noteq> ex_B \<and>
   matmul ex_D (MakeDenseMatrix [Fin 1, Fin 2, Fin 3, Fin 2] 2 2) = ex_B \<and>
   MatrixSolver diag_solve ex_D (MakeDenseMatrix [Fin 2, Fin 4, Fin 6, Fin 12, Fin 8, Fin 4] 2 3) =
     Inr (MakeDenseMatrix [Fin 1, Fin 3, Fin 2, Fin 2] 2 2) \<and>
   matmul ex_D (MakeDenseMatrix [Fin 1, Fin 2, Fin 3, Fin 3, Fin 2, Fin 1] 2 3) =
     MakeDenseMatrix [Fin 2, Fin 4, Fin 6, Fin 12, Fin 8, Fin 4] 2 3 \<and>
   MatrixSolver diag_solve ex_D (MakeDenseMatrix [Fin 2, Fin 12] 2 1) = Inl IndexOutOfRange"
  by code_simp


subsection \<open>The errors of the solve\<close>

lemma MatrixSolver_loop_without_errors:
  "MatrixSolver_loop (without_errors s) mat outcome i rws = MatrixSolver_loop s mat outcome i rws"
proof (induction "cols mat - i" arbitrary: i rws)
  case 0
  then have "\<not> i < cols mat" by simp
  then show ?case by (simp add: MatrixSolver_loop.simps [of _ _ _ i])
next
  case (Suc n)
  then have n: "n = cols mat - (i + 1)" by simp
  have fst_eq: "fst (without_errors s a b) = fst (s a b)" for a b
    by (simp add: without_errors_def)
  have "MatrixSolver_loop (without_errors s) mat outcome i rws =
     (if i < cols mat then
        (let matrix = Copy mat in
         case SwapCols outcome 0 i of Inl e \<Rightarrow> Inl e
         | Inr swapped \<Rightarrow>
             (case fst (s matrix swapped) of None \<Rightarrow> Inl NilDereference
              | Some value \<Rightarrow>
                  MatrixSolver_loop (without_errors s) mat outcome (i + 1) (rws @ Array value)))
      else Inr rws)"
    by (simp only: MatrixSolver_loop.simps [of "without_errors s" mat outcome i rws] fst_eq)
  also have "\<dots> =
     (if i < cols mat then
        (let matrix = Copy mat in
         case SwapCols outcome 0 i of Inl e \<Rightarrow> Inl e
         | Inr swapped \<Rightarrow>
             (case fst (s matrix swapped) of None \<Rightarrow> Inl NilDereference
              | Some value \<Rightarrow>
                  MatrixSolver_loop s mat outcome (i + 1) (rws @ Array value)))
      else Inr rws)"
    by (simp only: Suc.hyps(1) [OF n])
  also have "\<dots> = MatrixSolver_loop s mat outcome i rws"
    by (simp only: MatrixSolver_loop.simps [of s mat outcome i rws])
  finally show ?case .
qed

lemma MatrixSolver_without_errors:
  "MatrixSolver (without_errors s) A B = MatrixSolver s A B"
proof -
  have "fst (without_errors s A B) = fst (s A B)" by (simp add: without_errors_def)
  then show ?thesis
    unfolding MatrixSolver_def MatrixSolver_loop_without_errors by simp
qed

lemma ALS_iteration_without_errors:
  "ALS_iteration (without_errors s) Q k XY = ALS_iteration s Q k XY"
  unfolding ALS_iteration_def MatrixSolver_without_errors by (rule refl)

lemma ALS_loop_without_errors:
  "ALS_loop (without_errors s) Q k i T XY = ALS_loop s Q k i T XY"
proof (induction "nat (T - i)" arbitrary: i XY)
  case 0
  then have "\<not> i < T" by simp
  then show ?case by (simp add: ALS_loop.simps [of _ _ _ i])
next
  case (Suc n)
  then have n: "n = nat (T - (i + 1))" by simp
  have "ALS_loop (without_errors s) Q k i T XY =
     (if i < T then
        (case ALS_iteration s Q k XY of Inl e \<Rightarrow> Inl e
         | Inr XY' \<Rightarrow> ALS_loop (without_errors s) Q k (i + 1) T XY')
      else Inr XY)"
    by (simp only: ALS_loop.simps [of "without_errors s" Q k i T XY] ALS_iteration_without_errors)
  also have "\<dots> =
     (if i < T then
        (case ALS_iteration s Q k XY of Inl e \<Rightarrow> Inl e
         | Inr XY' \<Rightarrow> ALS_loop s Q k (i + 1) T XY')
      else Inr XY)"
    by (simp only: Suc.hyps(1) [OF n])
  also have "\<dots> = ALS_loop s Q k i T XY"
    by (simp only: ALS_loop.simps [of s Q k i T XY])
  finally show ?case .
qed

lemma ALS_loop_iterate:
  "ALS_loop solve Q k i T XY = iterate (nat (T - i)) (ALS_iteration solve Q k) XY"
proof (induction "nat (T - i)" arbitrary: i XY)
  case 0
  then have "\<not> i < T" by simp
  then show ?case using 0 by (simp add: ALS_loop.simps [of _ _ _ i])
next
  case (Suc n)
  then have n: "n = nat (T - (i + 1))" and lt: "i < T" by simp_all
  have "ALS_loop solve Q k i T XY =
        (case ALS_iteration solve Q k XY of Inl e \<Rightarrow> Inl e
         | Inr XY' \<Rightarrow> ALS_loop solve Q k (i + 1) T XY')"
    using lt by (simp add: ALS_loop.simps [of _ _ _ i])
  also have "\<dots> = (case ALS_iteration solve Q k XY of Inl e \<Rightarrow> Inl e
         | Inr XY' \<Rightarrow> iterate n (ALS_iteration solve Q k) XY')"
    by (simp only: Suc.hyps(1) [OF n] n [symmetric])
  also have "\<dots> = iterate (Suc n) (ALS_iteration solve Q k) XY" by simp
  finally show ?case by (simp only: Suc.hyps(2) [symmetric])
qed

lemma normal_matrix_code:
  "rows M = k \<Longrightarrow>
   fst (AddDense (fst (TimesDense M (transposed M))) (Scale (Eye k) lambda)) = normal_matrix M"
  by (simp add: normal_matrix_def matmul_def)

lemma MatrixSolver_loop_solve_at:
  assumes "0 < i"
    and "\<And>c. i \<le> c \<Longrightarrow> c < cols mat \<Longrightarrow> solve_at solve mat outcome c = Inr (Some (sol c))"
  shows "MatrixSolver_loop solve mat outcome i rws =
         Inr (rws @ concat (map (\<lambda>c. Array (sol c)) [i..<cols mat]))"
  using assms
proof (induction "cols mat - i" arbitrary: i rws)
  case 0
  then have "\<not> i < cols mat" by simp
  then show ?case by (subst MatrixSolver_loop.simps) simp
next
  case (Suc n)
  then have lt: "i < cols mat" by simp
  have "solve_at solve mat outcome i = Inr (Some (sol i))" using Suc.prems(2) lt by simp
  then obtain S where S: "SwapCols outcome 0 i = Inr S" "fst (solve (Copy mat) S) = Some (sol i)"
    using Suc.prems(1) by (auto simp: solve_at_def split: sum.splits)
  have n: "n = cols mat - (i + 1)" using Suc.hyps(2) by simp
  have step: "MatrixSolver_loop solve mat outcome (i + 1) (rws @ Array (sol i)) =
        Inr ((rws @ Array (sol i)) @ concat (map (\<lambda>c. Array (sol c)) [i + 1..<cols mat]))"
    using Suc.hyps(1) [OF n] Suc.prems by simp
  have "MatrixSolver_loop solve mat outcome i rws =
        MatrixSolver_loop solve mat outcome (i + 1) (rws @ Array (sol i))"
    using lt S by (subst MatrixSolver_loop.simps) simp
  with step show ?case using lt by (simp add: upt_conv_Cons)
qed

lemma MatrixSolver_loop_stops:
  assumes "0 < i" "i \<le> c" "c < cols mat"
    and "\<And>c'. i \<le> c' \<Longrightarrow> c' < c \<Longrightarrow> \<exists>x. solve_at solve mat outcome c' = Inr (Some x)"
    and "\<And>x. solve_at solve mat outcome c \<noteq> Inr (Some x)"
  shows "MatrixSolver_loop solve mat outcome i rws =
         (case solve_at solve mat outcome c of Inl e \<Rightarrow> Inl e | Inr v \<Rightarrow> Inl NilDereference)"
  using assms(1,2,4)
proof (induction "c - i" arbitrary: i rws)
  case 0
  then have ic: "i = c" by simp
  have c0: "c \<noteq> 0" using 0(2) ic by simp
  have nil: "fst (solve (Copy mat) S) = None" if "SwapCols outcome 0 c = Inr S" for S
    using assms(5) [of "the (fst (solve (Copy mat) S))"] that c0
    by (cases "fst (solve (Copy mat) S)") (simp_all add: solve_at_def)
  have "MatrixSolver_loop solve mat outcome c rws =
        (case solve_at solve mat outcome c of Inl e \<Rightarrow> Inl e | Inr v \<Rightarrow> Inl NilDereference)"
    using assms(3) c0 nil
    by (subst MatrixSolver_loop.simps) (simp add: solve_at_def split: sum.splits)
  then show ?case using ic by simp
next
  case (Suc n)
  then have lt: "i < c" "i < cols mat" using assms(3) by simp_all
  obtain x where "solve_at solve mat outcome i = Inr (Some x)"
    using Suc.prems(3) [of i] lt by auto
  then obtain S where S: "SwapCols outcome 0 i = Inr S" "fst (solve (Copy mat) S) = Some x"
    using Suc.prems(1) by (auto simp: solve_at_def split: sum.splits)
  have n: "n = c - (i + 1)" using Suc.hyps(2) by simp
  have step: "MatrixSolver_loop solve mat outcome (i + 1) (rws @ Array x) =
        (case solve_at solve mat outcome c of Inl e \<Rightarrow> Inl e | Inr v \<Rightarrow> Inl NilDereference)"
    using Suc.hyps(1) [OF n] Suc.prems lt by simp
  have "MatrixSolver_loop solve mat outcome i rws =
        MatrixSolver_loop solve mat outcome (i + 1) (rws @ Array x)"
    using lt S by (subst MatrixSolver_loop.simps) simp
  with step show ?case by simp
qed

lemma MatrixSolver_assembles:
  assumes "\<And>c. c < max 1 (cols A) \<Longrightarrow> solve_at solve A B c = Inr (Some (x c))"
  shows "MatrixSolver solve A B =
         Inr (MakeDenseMatrix (concat (map (\<lambda>c. Array (x c)) [0..<max 1 (cols A)]))
                (rows A) (cols A))"
proof -
  have first: "fst (solve A B) = Some (x 0)"
    using assms [of 0] by (simp add: solve_at_def)
  have "MatrixSolver_loop solve A B 1 ([] @ Array (x 0)) =
        Inr (([] @ Array (x 0)) @ concat (map (\<lambda>c. Array (x c)) [1..<cols A]))"
    using assms by (intro MatrixSolver_loop_solve_at) simp_all
  moreover have "[0..<max 1 (cols A)] = 0 # [1..<cols A]"
    by (cases "cols A") (simp_all add: upt_conv_Cons)
  ultimately show ?thesis using first by (simp add: MatrixSolver_def)
qed

lemma MatrixSolver_stops:
  assumes "c < max 1 (cols A)"
    and "\<And>c'. c' < c \<Longrightarrow> \<exists>x. solve_at solve A B c' = Inr (Some x)"
    and "\<And>x. solve_at solve A B c \<noteq> Inr (Some x)"
  shows "MatrixSolver solve A B =
         (case solve_at solve A B c of Inl e \<Rightarrow> Inl e | Inr v \<Rightarrow> Inl NilDereference)"
proof (cases "c = 0")
  case True
  then show ?thesis
    using assms(3) by (auto simp: MatrixSolver_def solve_at_def split: option.splits)
next
  case False
  then obtain x where "solve_at solve A B 0 = Inr (Some x)" using assms(2) [of 0] by auto
  then have first: "fst (solve A B) = Some x" by (simp add: solve_at_def)
  have "MatrixSolver_loop solve A B 1 ([] @ Array x) =
        (case solve_at solve A B c of Inl e \<Rightarrow> Inl e | Inr v \<Rightarrow> Inl NilDereference)"
    using False assms by (intro MatrixSolver_loop_stops) simp_all
  then show ?thesis
    using first by (simp add: MatrixSolver_def split: sum.splits)
qed

lemma MatrixSolver_result_shape:
  "MatrixSolver solve A B = Inr M \<Longrightarrow> rows M = rows A \<and> cols M = cols A"
  by (auto simp: MatrixSolver_def MakeDenseMatrix_def split: option.splits sum.splits)

lemma Transpose_result: "Transpose A = Inr T \<Longrightarrow> T = transposed A"
  by (simp add: Transpose_def split: if_splits)

lemma ALS_iteration_result:
  assumes wf: "well_formed Q" "well_formed Y" "rows Y = k"
    and m1: "MatrixSolver solve (normal_matrix Y) (matmul Y (transposed Q)) = Inr M1"
      "Transpose M1 = Inr X2"
    and m2: "MatrixSolver solve (normal_matrix X2) (matmul X2 Q) = Inr M2"
      "Transpose M2 = Inr Y2"
  shows "ALS_iteration solve Q k (X, Y) = Inr (transposed X2, Y2)"
proof -
  have X2: "X2 = transposed M1" using m1(2) by (rule Transpose_result)
  have "cols M1 = k" using MatrixSolver_result_shape [OF m1(1)] wf(3) by simp
  then have r: "rows X2 = k" using X2 by simp
  have s1: "Transpose Y = Inr (transposed Y)" "Transpose Q = Inr (transposed Q)"
    "Transpose X2 = Inr (transposed X2)"
    using wf X2 by (simp_all add: Transpose_well_formed)
  have a1: "fst (AddDense (fst (TimesDense Y (transposed Y))) (Scale (Eye k) lambda)) =
            normal_matrix Y"
    using wf(3) by (rule normal_matrix_code)
  have a2: "fst (AddDense (fst (TimesDense X2 (transposed X2))) (Scale (Eye k) lambda)) =
            normal_matrix X2"
    using r by (rule normal_matrix_code)
  have b1: "fst (TimesDense Y (transposed Q)) = matmul Y (transposed Q)"
    "fst (TimesDense X2 Q) = matmul X2 Q"
    by (simp_all add: matmul_def)
  show ?thesis
    unfolding ALS_iteration_def Let_def
    by (simp only: snd_conv s1 sum.case a1 a2 b1 m1 m2)
qed

lemma ALS_iteration_panics:
  assumes wf: "well_formed Q" "well_formed Y" "rows Y = k"
    and m1: "MatrixSolver solve (normal_matrix Y) (matmul Y (transposed Q)) = Inl e"
  shows "ALS_iteration solve Q k (X, Y) = Inl e"
proof -
  have s1: "Transpose Y = Inr (transposed Y)" "Transpose Q = Inr (transposed Q)"
    using wf by (simp_all add: Transpose_well_formed)
  have a1: "fst (AddDense (fst (TimesDense Y (transposed Y))) (Scale (Eye k) lambda)) =
            normal_matrix Y"
    using wf(3) by (rule normal_matrix_code)
  have b1: "fst (TimesDense Y (transposed Q)) = matmul Y (transposed Q)"
    by (simp add: matmul_def)
  show ?thesis
    unfolding ALS_iteration_def Let_def
    by (simp only: snd_conv s1 sum.case a1 b1 m1)
qed

text \<open>
  C3 (amended). \<^verbatim>\<open>MatrixSolver\<close> and \<^verbatim>\<open>ALS\<close> return a matrix and nothing else, and
  \<^verbatim>\<open>MatrixSolver\<close> drops the error of every solve. So:

  \<^item> a fit and a multi-column solve come out the same whatever errors the solves return;

  \<^item> when each of the solves of \<^verbatim>\<open>MatrixSolver(A, B)\<close> (one per column of \<open>A\<close>, and at
    least one) returns a matrix, \<^verbatim>\<open>MatrixSolver\<close> returns the elements of those matrices,
    in that order, under the shape of \<open>A\<close>, whatever they hold;

  \<^item> at the first solve that returns nil, \<^verbatim>\<open>MatrixSolver\<close> stops with a nil-dereference
    panic, and at an exchange of columns that panics it stops with that panic;

  \<^item> an iteration of \<^verbatim>\<open>ALS\<close> whose two calls of \<^verbatim>\<open>MatrixSolver\<close> return matrices \<open>M\<^sub>1\<close> and
    \<open>M\<^sub>2\<close> that can be transposed goes on with them as the new factors, and one whose first
    call panics stops with that panic;

  \<^item> a fit is its iterations run one after the other (C1), so it ends with a matrix or with a
    panic, never with an error.
\<close>

theorem solve_errors_dropped:
  "ALS rnd (without_errors solve) Q T k = ALS rnd solve Q T k \<and>
   MatrixSolver (without_errors solve) A B = MatrixSolver solve A B \<and>
   ((\<forall>c<max 1 (cols A). solve_at solve A B c = Inr (Some (x c))) \<longrightarrow>
      MatrixSolver solve A B =
        Inr (MakeDenseMatrix (concat (map (\<lambda>c. Array (x c)) [0..<max 1 (cols A)]))
               (rows A) (cols A))) \<and>
   (c < max 1 (cols A) \<and> (\<forall>c'<c. \<exists>x'. solve_at solve A B c' = Inr (Some x')) \<and>
    solve_at solve A B c = Inr None \<longrightarrow>
      MatrixSolver solve A B = Inl NilDereference) \<and>
   (c < max 1 (cols A) \<and> (\<forall>c'<c. \<exists>x'. solve_at solve A B c' = Inr (Some x')) \<and>
    solve_at solve A B c = Inl e \<longrightarrow>
      MatrixSolver solve A B = Inl e) \<and>
   (well_formed Q \<and> well_formed Y \<and> rows Y = k \<and>
    MatrixSolver solve (normal_matrix Y) (matmul Y (transposed Q)) = Inr M1 \<and>
    Transpose M1 = Inr X2 \<and>
    MatrixSolver solve (normal_matrix X2) (matmul X2 Q) = Inr M2 \<and>
    Transpose M2 = Inr Y2 \<longrightarrow>
      ALS_iteration solve Q k (X, Y) = Inr (transposed X2, Y2)) \<and>
   (well_formed Q \<and> well_formed Y \<and> rows Y = k \<and>
    MatrixSolver solve (normal_matrix Y) (matmul Y (transposed Q)) = Inl e \<longrightarrow>
      ALS_iteration solve Q k (X, Y) = Inl e) \<and>
   ALS rnd solve Q T k =
     (case iterate (nat T) (ALS_iteration solve Q k) (MakeXY rnd Q k) of
        Inl e \<Rightarrow> Inl e
      | Inr XY \<Rightarrow> Inr (matmul (fst XY) (snd XY)))"
proof (intro conjI impI)
  show "ALS rnd (without_errors solve) Q T k = ALS rnd solve Q T k"
    unfolding ALS_def ALS_loop_without_errors by (rule refl)
next
  show "MatrixSolver (without_errors solve) A B = MatrixSolver solve A B"
    by (rule MatrixSolver_without_errors)
next
  assume "\<forall>c<max 1 (cols A). solve_at solve A B c = Inr (Some (x c))"
  then show "MatrixSolver solve A B =
        Inr (MakeDenseMatrix (concat (map (\<lambda>c. Array (x c)) [0..<max 1 (cols A)]))
               (rows A) (cols A))"
    by (intro MatrixSolver_assembles) simp
next
  assume h: "c < max 1 (cols A) \<and> (\<forall>c'<c. \<exists>x'. solve_at solve A B c' = Inr (Some x')) \<and>
    solve_at solve A B c = Inr None"
  then have "MatrixSolver solve A B =
         (case solve_at solve A B c of Inl e \<Rightarrow> Inl e | Inr v \<Rightarrow> Inl NilDereference)"
    by (intro MatrixSolver_stops) simp_all
  with h show "MatrixSolver solve A B = Inl NilDereference" by simp
next
  assume h: "c < max 1 (cols A) \<and> (\<forall>c'<c. \<exists>x'. solve_at solve A B c' = Inr (Some x')) \<and>
    solve_at solve A B c = Inl e"
  then have "MatrixSolver solve A B =
         (case solve_at solve A B c of Inl e \<Rightarrow> Inl e | Inr v \<Rightarrow> Inl NilDereference)"
    by (intro MatrixSolver_stops) simp_all
  with h show "MatrixSolver solve A B = Inl e" by simp
next
  assume "well_formed Q \<and> well_formed Y \<and> rows Y = k \<and>
    MatrixSolver solve (normal_matrix Y) (matmul Y (transposed Q)) = Inr M1 \<and>
    Transpose M1 = Inr X2 \<and>
    MatrixSolver solve (normal_matrix X2) (matmul X2 Q) = Inr M2 \<and>
    Transpose M2 = Inr Y2"
  then show "ALS_iteration solve Q k (X, Y) = Inr (transposed X2, Y2)"
    by (elim conjE) (rule ALS_iteration_result)
next
  assume "well_formed Q \<and> well_formed Y \<and> rows Y = k \<and>
    MatrixSolver solve (normal_matrix Y) (matmul Y (transposed Q)) = Inl e"
  then show "ALS_iteration solve Q k (X, Y) = Inl e"
    by (elim conjE) (rule ALS_iteration_panics)
next
  show "ALS rnd solve Q T k =
     (case iterate (nat T) (ALS_iteration solve Q k) (MakeXY rnd Q k) of
        Inl e \<Rightarrow> Inl e
      | Inr XY \<Rightarrow> Inr (matmul (fst XY) (snd XY)))"
    unfolding ALS_def Let_def matmul_def ALS_loop_iterate by simp
qed

theorem solve_errors_dropped_witness:
  "solve_at diag_solve ex_S ex_C 0 = Inr (Some (MakeDenseMatrix [NaN, PInf] 2 1)) \<and>
   solve_at diag_solve ex_S ex_C (Suc 0) = Inr (Some (MakeDenseMatrix [NaN, NaN] 2 1)) \<and>
   MatrixSolver diag_solve ex_S ex_C = Inr (MakeDenseMatrix [NaN, PInf, NaN, NaN] 2 2) \<and>
   solve_at (nil_unless ex_B) ex_D ex_B 0 = Inr (Some (MakeDenseMatrix [Fin 1, Fin 3] 2 1)) \<and>
   solve_at (nil_unless ex_B) ex_D ex_B (Suc 0) = Inr None \<and>
   MatrixSolver (nil_unless ex_B) ex_D ex_B = Inl NilDereference \<and>
   solve_at diag_solve ex_D (MakeDenseMatrix [Fin 2, Fin 12] 2 1) 0 =
     Inr (Some (MakeDenseMatrix [Fin 1, Fin 3] 2 1)) \<and>
   solve_at diag_solve ex_D (MakeDenseMatrix [Fin 2, Fin 12] 2 1) (Suc 0) = Inl IndexOutOfRange \<and>
   MatrixSolver diag_solve ex_D (MakeDenseMatrix [Fin 2, Fin 12] 2 1) = Inl IndexOutOfRange \<and>
   MatrixSolver diag_solve (normal_matrix ex_I2) (matmul ex_I2 (transposed ex_Q)) =
     Inr (MakeDenseMatrix [Fin 0, Fin (20 / 11), Fin (10 / 11), Fin 0] 2 2) \<and>
   MatrixSolver diag_solve
     (normal_matrix (MakeDenseMatrix [Fin 0, Fin (10 / 11), Fin (20 / 11), Fin 0] 2 2))
     (matmul (MakeDenseMatrix [Fin 0, Fin (10 / 11), Fin (20 / 11), Fin 0] 2 2) ex_Q) =
     Inr (MakeDenseMatrix [Fin (1100 / 1121), Fin 0, Fin 0, Fin (4400 / 4121)] 2 2) \<and>
   ALS_iteration diag_solve ex_Q 2 (ex_I2, ex_I2) =
     Inr (MakeDenseMatrix [Fin 0, Fin (20 / 11), Fin (10 / 11), Fin 0] 2 2,
          MakeDenseMatrix [Fin (1100 / 1121), Fin 0, Fin 0, Fin (4400 / 4121)] 2 2) \<and>
   MatrixSolver nil_solve (normal_matrix ex_I2) (matmul ex_I2 (transposed ex_Q)) =
     Inl NilDereference \<and>
   ALS_iteration nil_solve ex_Q 2 (ex_I2, ex_I2) = Inl NilDereference"
proof -
  let ?x = "\<lambda>c. if c = 0 then MakeDenseMatrix [NaN, PInf] 2 1 else MakeDenseMatrix [NaN, NaN] 2 1"
  let ?P = "MakeDenseMatrix [Fin 2, Fin 12] 2 1"
  let ?M1 = "MakeDenseMatrix [Fin 0, Fin (20 / 11), Fin (10 / 11), Fin 0] 2 2"
  let ?X2 = "MakeDenseMatrix [Fin 0, Fin (10 / 11), Fin (20 / 11), Fin 0] 2 2"
  let ?M2 = "MakeDenseMatrix [Fin (1100 / 1121), Fin 0, Fin 0, Fin (4400 / 4121)] 2 2"
  have two: "c = 0 \<or> c = Suc 0" if "c < max 1 (cols A)" "cols A = 2" for c and A :: matrix
    using that by auto
  have cl: "cols ex_S = 2" "cols ex_D = 2"
    by (simp_all add: ex_S_def ex_D_def MakeDenseMatrix_def)
  have s0: "solve_at diag_solve ex_S ex_C 0 = Inr (Some (MakeDenseMatrix [NaN, PInf] 2 1))"
    by code_simp
  have s1: "solve_at diag_solve ex_S ex_C (Suc 0) = Inr (Some (MakeDenseMatrix [NaN, NaN] 2 1))"
    by code_simp
  have "\<forall>c<max 1 (cols ex_S). solve_at diag_solve ex_S ex_C c = Inr (Some (?x c))"
    using two [OF _ cl(1)] s0 s1 by auto
  then have "MatrixSolver diag_solve ex_S ex_C =
      Inr (MakeDenseMatrix (concat (map (\<lambda>c. Array (?x c)) [0..<max 1 (cols ex_S)]))
             (rows ex_S) (cols ex_S))"
    by (rule solve_errors_dropped [where solve = diag_solve and A = ex_S and B = ex_C and x = ?x,
          THEN conjunct2, THEN conjunct2, THEN conjunct1, THEN mp])
  moreover have "MakeDenseMatrix (concat (map (\<lambda>c. Array (?x c)) [0..<max 1 (cols ex_S)]))
             (rows ex_S) (cols ex_S) = MakeDenseMatrix [NaN, PInf, NaN, NaN] 2 2"
    by code_simp
  ultimately have a: "MatrixSolver diag_solve ex_S ex_C =
      Inr (MakeDenseMatrix [NaN, PInf, NaN, NaN] 2 2)"
    by simp
  have n0: "solve_at (nil_unless ex_B) ex_D ex_B 0 = Inr (Some (MakeDenseMatrix [Fin 1, Fin 3] 2 1))"
    by code_simp
  have n1: "solve_at (nil_unless ex_B) ex_D ex_B (Suc 0) = Inr None"
    by code_simp
  have "Suc 0 < max 1 (cols ex_D) \<and>
        (\<forall>c'<Suc 0. \<exists>x'. solve_at (nil_unless ex_B) ex_D ex_B c' = Inr (Some x')) \<and>
        solve_at (nil_unless ex_B) ex_D ex_B (Suc 0) = Inr None"
    using n0 n1 cl(2) by simp
  then have b: "MatrixSolver (nil_unless ex_B) ex_D ex_B = Inl NilDereference"
    by (rule solve_errors_dropped [where solve = "nil_unless ex_B" and A = ex_D and B = ex_B
          and c = "Suc 0",
          THEN conjunct2, THEN conjunct2, THEN conjunct2, THEN conjunct1, THEN mp])
  have p0: "solve_at diag_solve ex_D ?P 0 = Inr (Some (MakeDenseMatrix [Fin 1, Fin 3] 2 1))"
    by code_simp
  have p1: "solve_at diag_solve ex_D ?P (Suc 0) = Inl IndexOutOfRange"
    by code_simp
  have "Suc 0 < max 1 (cols ex_D) \<and>
        (\<forall>c'<Suc 0. \<exists>x'. solve_at diag_solve ex_D ?P c' = Inr (Some x')) \<and>
        solve_at diag_solve ex_D ?P (Suc 0) = Inl IndexOutOfRange"
    using p0 p1 cl(2) by simp
  then have c: "MatrixSolver diag_solve ex_D ?P = Inl IndexOutOfRange"
    by (rule solve_errors_dropped [where solve = diag_solve and A = ex_D and B = ?P
          and c = "Suc 0" and e = IndexOutOfRange,
          THEN conjunct2, THEN conjunct2, THEN conjunct2, THEN conjunct2, THEN conjunct1, THEN mp])
  have wf: "well_formed ex_Q" "well_formed ex_I2" "rows ex_I2 = 2"
    by (simp_all add: ex_Q_def ex_I2_def MakeDenseMatrix_def well_formed_def)
  have m1: "MatrixSolver diag_solve (normal_matrix ex_I2) (matmul ex_I2 (transposed ex_Q)) =
            Inr ?M1"
    by code_simp
  have t1: "Transpose ?M1 = Inr ?X2" by code_simp
  have m2: "MatrixSolver diag_solve (normal_matrix ?X2) (matmul ?X2 ex_Q) = Inr ?M2"
    by code_simp
  have t2: "Transpose ?M2 = Inr ?M2" by code_simp
  have t3: "transposed ?X2 = ?M1" by code_simp
  have "well_formed ex_Q \<and> well_formed ex_I2 \<and> rows ex_I2 = 2 \<and>
        MatrixSolver diag_solve (normal_matrix ex_I2) (matmul ex_I2 (transposed ex_Q)) = Inr ?M1 \<and>
        Transpose ?M1 = Inr ?X2 \<and>
        MatrixSolver diag_solve (normal_matrix ?X2) (matmul ?X2 ex_Q) = Inr ?M2 \<and>
        Transpose ?M2 = Inr ?M2"
    by (intro conjI wf m1 t1 m2 t2)
  then have "ALS_iteration diag_solve ex_Q 2 (ex_I2, ex_I2) = Inr (transposed ?X2, ?M2)"
    by (rule solve_errors_dropped [where solve = diag_solve and Q = ex_Q and Y = ex_I2 and k = 2
          and ?M1.0 = ?M1 and ?X2.0 = ?X2 and ?M2.0 = ?M2 and ?Y2.0 = ?M2 and X = ex_I2,
          THEN conjunct2, THEN conjunct2, THEN conjunct2, THEN conjunct2, THEN conjunct2,
          THEN conjunct1, THEN mp])
  then have d: "ALS_iteration diag_solve ex_Q 2 (ex_I2, ex_I2) = Inr (?M1, ?M2)"
    by (simp only: t3)
  have m3: "MatrixSolver nil_solve (normal_matrix ex_I2) (matmul ex_I2 (transposed ex_Q)) =
            Inl NilDereference"
    by (simp add: MatrixSolver_def nil_solve_def)
  have "well_formed ex_Q \<and> well_formed ex_I2 \<and> rows ex_I2 = 2 \<and>
        MatrixSolver nil_solve (normal_matrix ex_I2) (matmul ex_I2 (transposed ex_Q)) =
          Inl NilDereference"
    by (intro conjI wf m3)
  then have e: "ALS_iteration nil_solve ex_Q 2 (ex_I2, ex_I2) = Inl NilDereference"
    by (rule solve_errors_dropped [where solve = nil_solve and Q = ex_Q and Y = ex_I2 and k = 2
          and e = NilDereference and X = ex_I2,
          THEN conjunct2, THEN conjunct2, THEN conjunct2, THEN conjunct2, THEN conjunct2,
          THEN conjunct2, THEN conjunct1, THEN mp])
  show ?thesis
    by (intro conjI s0 s1 a n0 n1 b p0 p1 c m1 m2 d m3 e)
qed

text \<open>
  The claim as written fails. \<^verbatim>\<open>MatrixSolver\<close> on the singular system \<open>[[0]] \<cdot> x = [[1]]\<close>
  returns \<open>[[+\<infinity>]]\<close>, and on the singular matrix \<open>diag(1, 0)\<close> with the right-hand side
  \<open>[[1, 1], [1, 0]]\<close> it returns \<open>[[NaN, +\<infinity>], [NaN, NaN]]\<close>: the substitution divides by
  the zero pivot, and the outcome is an ordinary result with no error.
\<close>

theorem singular_system_counterexample:
  "MatrixSolver diag_solve (MakeDenseMatrix [Fin 0] 1 1) (MakeDenseMatrix [Fin 1] 1 1) =
     Inr (MakeDenseMatrix [PInf] 1 1) \<and>
   MatrixSolver diag_solve ex_S ex_C = Inr (MakeDenseMatrix [NaN, PInf, NaN, NaN] 2 2)"
  by code_simp


subsection \<open>The alternation\<close>

lemma ALS_iteration_equations:
  assumes Q: "well_formed Q" "rows Q = k" "cols Q = k"
    and Y: "well_formed Y" "rows Y = k" "cols Y = k" and k: "0 < k"
    and ex1: "exact_on solve (normal_matrix Y) (matmul Y (transposed Q))"
    and ex2: "\<And>X1. MatrixSolver solve (normal_matrix Y) (matmul Y (transposed Q)) = Inr X1 \<Longrightarrow>
             exact_on solve (normal_matrix (transposed X1)) (matmul (transposed X1) Q)"
  shows "\<exists>X' Y'. ALS_iteration solve Q k (X, Y) = Inr (X', Y') \<and>
           well_formed X' \<and> rows X' = k \<and> cols X' = k \<and>
           well_formed Y' \<and> rows Y' = k \<and> cols Y' = k \<and>
           matmul (normal_matrix Y) (transposed X') = matmul Y (transposed Q) \<and>
           matmul (normal_matrix (transposed X')) Y' = matmul (transposed X') Q"
proof -
  let ?A = "normal_matrix Y" and ?B = "matmul Y (transposed Q)"
  have "\<exists>M. MatrixSolver solve ?A ?B = Inr M \<and> well_formed M \<and> rows M = k \<and> cols M = k \<and>
             matmul ?A (transposed M) = ?B"
    using k ex1 by (intro MatrixSolver_square) (simp_all add: Y Q)
  then obtain X1 where X1: "MatrixSolver solve ?A ?B = Inr X1" "well_formed X1" "rows X1 = k"
    "cols X1 = k" "matmul ?A (transposed X1) = ?B"
    by blast
  let ?X2 = "transposed X1"
  let ?A' = "normal_matrix ?X2" and ?B' = "matmul ?X2 Q"
  have ex2': "exact_on solve ?A' ?B'" using X1(1) by (rule ex2)
  have "\<exists>M. MatrixSolver solve ?A' ?B' = Inr M \<and> well_formed M \<and> rows M = k \<and> cols M = k \<and>
             matmul ?A' (transposed M) = ?B'"
    using k ex2' by (intro MatrixSolver_square) (simp_all add: X1 Q)
  then obtain Y1 where Y1: "MatrixSolver solve ?A' ?B' = Inr Y1" "well_formed Y1" "rows Y1 = k"
    "cols Y1 = k" "matmul ?A' (transposed Y1) = ?B'"
    by blast
  have tt: "transposed ?X2 = X1" using X1(2) by (rule transposed_twice)
  have s1: "Transpose Y = Inr (transposed Y)" "Transpose Q = Inr (transposed Q)"
    "Transpose X1 = Inr ?X2" "Transpose ?X2 = Inr X1" "Transpose Y1 = Inr (transposed Y1)"
    using Y(1) Q(1) X1(2) Y1(2) tt by (simp_all add: Transpose_well_formed)
  have a1: "fst (AddDense (fst (TimesDense Y (transposed Y))) (Scale (Eye k) lambda)) = ?A"
    using Y(2) by (rule normal_matrix_code)
  have a2: "fst (AddDense (fst (TimesDense ?X2 X1)) (Scale (Eye k) lambda)) = ?A'"
    using normal_matrix_code [of ?X2 k] X1(4) tt by simp
  have b1: "fst (TimesDense Y (transposed Q)) = ?B" "fst (TimesDense ?X2 Q) = ?B'"
    by (simp_all add: matmul_def)
  have run: "ALS_iteration solve Q k (X, Y) = Inr (X1, transposed Y1)"
    unfolding ALS_iteration_def Let_def
    by (simp only: snd_conv s1 sum.case a1 a2 b1 X1(1) Y1(1))
  show ?thesis using run X1(2-5) Y1(2-5) by simp
qed


text \<open>
  C1 (amended). \<^verbatim>\<open>ALS\<close> runs its loop body exactly \<open>T\<close> times (not at all for \<open>T \<le> 0\<close>;
  a panic ends the run) and then multiplies the factors: there is no other stopping test.
  For a \<open>k \<times> k\<close> rating matrix and solves that are exact on the two systems, one
  iteration returns factors \<open>X'\<close>, \<open>Y'\<close> with \<open>(Y\<cdot>Y\<^sup>t + \<lambda>I) \<cdot> X'\<^sup>t = Y \<cdot> Q\<^sup>t\<close> and then, with
  the new \<open>X'\<close>, \<open>(X'\<^sup>t\<cdot>X' + \<lambda>I) \<cdot> Y' = X'\<^sup>t \<cdot> Q\<close>.
\<close>

theorem ALS_alternation:
  "ALS rnd solve Q T k =
     (case iterate (nat T) (ALS_iteration solve Q k) (MakeXY rnd Q k) of
        Inl e \<Rightarrow> Inl e
      | Inr XY \<Rightarrow> Inr (matmul (fst XY) (snd XY))) \<and>
   (well_formed Q \<and> rows Q = k \<and> cols Q = k \<and>
    well_formed Y \<and> rows Y = k \<and> cols Y = k \<and> 0 < k \<and>
    exact_on solve (normal_matrix Y) (matmul Y (transposed Q)) \<and>
    (\<forall>X1. MatrixSolver solve (normal_matrix Y) (matmul Y (transposed Q)) = Inr X1 \<longrightarrow>
          exact_on solve (normal_matrix (transposed X1)) (matmul (transposed X1) Q)) \<longrightarrow>
    (\<exists>X' Y'. ALS_iteration solve Q k (X, Y) = Inr (X', Y') \<and>
       well_formed X' \<and> rows X' = k \<and> cols X' = k \<and>
       well_formed Y' \<and> rows Y' = k \<and> cols Y' = k \<and>
       matmul (normal_matrix Y) (transposed X') = matmul Y (transposed Q) \<and>
       matmul (normal_matrix (transposed X')) Y' = matmul (transposed X') Q))"
proof (intro conjI impI)
  show "ALS rnd solve Q T k =
     (case iterate (nat T) (ALS_iteration solve Q k) (MakeXY rnd Q k) of
        Inl e \<Rightarrow> Inl e
      | Inr XY \<Rightarrow> Inr (matmul (fst XY) (snd XY)))"
    unfolding ALS_def Let_def matmul_def ALS_loop_iterate by simp
next
  assume h: "well_formed Q \<and> rows Q = k \<and> cols Q = k \<and>
    well_formed Y \<and> rows Y = k \<and> cols Y = k \<and> 0 < k \<and>
    exact_on solve (normal_matrix Y) (matmul Y (transposed Q)) \<and>
    (\<forall>X1. MatrixSolver solve (normal_matrix Y) (matmul Y (transposed Q)) = Inr X1 \<longrightarrow>
          exact_on solve (normal_matrix (transposed X1)) (matmul (transposed X1) Q))"
  then have "\<And>X1. MatrixSolver solve (normal_matrix Y) (matmul Y (transposed Q)) = Inr X1 \<Longrightarrow>
             exact_on solve (normal_matrix (transposed X1)) (matmul (transposed X1) Q)"
    by blast
  with h show "\<exists>X' Y'. ALS_iteration solve Q k (X, Y) = Inr (X', Y') \<and>
       well_formed X' \<and> rows X' = k \<and> cols X' = k \<and>
       well_formed Y' \<and> rows Y' = k \<and> cols Y' = k \<and>
       matmul (normal_matrix Y) (transposed X') = matmul Y (transposed Q) \<and>
       matmul (normal_matrix (transposed X')) Y' = matmul (transposed X') Q"
    by (intro ALS_iteration_equations) simp_all
qed

theorem ALS_alternation_witness:
  "exact_on diag_solve (normal_matrix ex_I2) (matmul ex_I2 (transposed ex_Q)) \<and>
   MatrixSolver diag_solve (normal_matrix ex_I2) (matmul ex_I2 (transposed ex_Q)) =
     Inr (MakeDenseMatrix [Fin 0, Fin (20 / 11), Fin (10 / 11), Fin 0] 2 2) \<and>
   exact_on diag_solve
     (normal_matrix (transposed (MakeDenseMatrix [Fin 0, Fin (20 / 11), Fin (10 / 11), Fin 0] 2 2)))
     (matmul (transposed (MakeDenseMatrix [Fin 0, Fin (20 / 11), Fin (10 / 11), Fin 0] 2 2)) ex_Q) \<and>
   ALS_iteration diag_solve ex_Q 2 (ex_I2, ex_I2) =
     Inr (MakeDenseMatrix [Fin 0, Fin (20 / 11), Fin (10 / 11), Fin 0] 2 2,
          MakeDenseMatrix [Fin (1100 / 1121), Fin 0, Fin 0, Fin (4400 / 4121)] 2 2) \<and>
   matmul (normal_matrix (transposed (MakeDenseMatrix [Fin 0, Fin (20 / 11), Fin (10 / 11), Fin 0] 2 2)))
     (MakeDenseMatrix [Fin (1100 / 1121), Fin 0, Fin 0, Fin (4400 / 4121)] 2 2) =
   matmul (transposed (MakeDenseMatrix [Fin 0, Fin (20 / 11), Fin (10 / 11), Fin 0] 2 2)) ex_Q"
proof -
  let ?X = "MakeDenseMatrix [Fin 0, Fin (20 / 11), Fin (10 / 11), Fin 0] 2 2"
  let ?Y = "MakeDenseMatrix [Fin (1100 / 1121), Fin 0, Fin 0, Fin (4400 / 4121)] 2 2"
  have shape: "well_formed ex_Q" "rows ex_Q = 2" "cols ex_Q = 2"
    "well_formed ex_I2" "rows ex_I2 = 2" "cols ex_I2 = 2"
    by (simp_all add: ex_Q_def ex_I2_def MakeDenseMatrix_def well_formed_def)
  have A: "normal_matrix ex_I2 = MakeDenseMatrix [Fin (11 / 10), Fin 0, Fin 0, Fin (11 / 10)] 2 2"
    by code_simp
  have B: "matmul ex_I2 (transposed ex_Q) = MakeDenseMatrix [Fin 0, Fin 1, Fin 2, Fin 0] 2 2"
    by code_simp
  have e1: "exact_on diag_solve (normal_matrix ex_I2) (matmul ex_I2 (transposed ex_Q))"
    unfolding A B by (rule diag_solve_exact_2x2) simp_all
  have m: "MatrixSolver diag_solve (normal_matrix ex_I2) (matmul ex_I2 (transposed ex_Q)) = Inr ?X"
    by code_simp
  have A': "normal_matrix (transposed ?X) =
            MakeDenseMatrix [Fin (1121 / 1210), Fin 0, Fin 0, Fin (4121 / 1210)] 2 2"
    by code_simp
  have B': "matmul (transposed ?X) ex_Q = MakeDenseMatrix [Fin (10 / 11), Fin 0, Fin 0, Fin (40 / 11)] 2 2"
    by code_simp
  have e2: "exact_on diag_solve (normal_matrix (transposed ?X)) (matmul (transposed ?X) ex_Q)"
    unfolding A' B' by (rule diag_solve_exact_2x2) simp_all
  have run: "ALS_iteration diag_solve ex_Q 2 (ex_I2, ex_I2) = Inr (?X, ?Y)"
    by code_simp
  have hyp: "well_formed ex_Q \<and> rows ex_Q = 2 \<and> cols ex_Q = 2 \<and>
    well_formed ex_I2 \<and> rows ex_I2 = 2 \<and> cols ex_I2 = 2 \<and> (0::nat) < 2 \<and>
    exact_on diag_solve (normal_matrix ex_I2) (matmul ex_I2 (transposed ex_Q)) \<and>
    (\<forall>X1. MatrixSolver diag_solve (normal_matrix ex_I2) (matmul ex_I2 (transposed ex_Q)) = Inr X1 \<longrightarrow>
          exact_on diag_solve (normal_matrix (transposed X1)) (matmul (transposed X1) ex_Q))"
    using shape e1 e2 m by simp
  have "\<exists>X' Y'. ALS_iteration diag_solve ex_Q 2 (ex_I2, ex_I2) = Inr (X', Y') \<and>
       well_formed X' \<and> rows X' = 2 \<and> cols X' = 2 \<and>
       well_formed Y' \<and> rows Y' = 2 \<and> cols Y' = 2 \<and>
       matmul (normal_matrix ex_I2) (transposed X') = matmul ex_I2 (transposed ex_Q) \<and>
       matmul (normal_matrix (transposed X')) Y' = matmul (transposed X') ex_Q"
    using ALS_alternation [of "\<lambda>n. Fin 0" diag_solve ex_Q 1 2 ex_I2 ex_I2] hyp by blast
  then have "matmul (normal_matrix (transposed ?X)) ?Y = matmul (transposed ?X) ex_Q"
    unfolding run by simp
  with e1 m e2 run show ?thesis by simp
qed

text \<open>
  The claim as written fails: for \<open>Q = [[0, 2], [1, 0]]\<close> and \<open>Y = I\<close> the factors \<open>X'\<close>, \<open>Y'\<close>
  that one iteration returns do not satisfy \<open>(X'\<cdot>X'\<^sup>t + \<lambda>I) \<cdot> Y' = X' \<cdot> Q\<close>. On a rating
  matrix that is not square the second half step does not solve for all of \<open>Y\<close>: for a
  \<open>1 \<times> 2\<close> matrix and one factor, \<open>Y'\<close> and the reconstruction are \<open>1 \<times> 1\<close>.
\<close>

theorem ALS_alternation_counterexample:
  "ALS_iteration diag_solve ex_Q 2 (ex_I2, ex_I2) =
     Inr (MakeDenseMatrix [Fin 0, Fin (20 / 11), Fin (10 / 11), Fin 0] 2 2,
          MakeDenseMatrix [Fin (1100 / 1121), Fin 0, Fin 0, Fin (4400 / 4121)] 2 2) \<and>
   matmul (normal_matrix (MakeDenseMatrix [Fin 0, Fin (20 / 11), Fin (10 / 11), Fin 0] 2 2))
     (MakeDenseMatrix [Fin (1100 / 1121), Fin 0, Fin 0, Fin (4400 / 4121)] 2 2) \<noteq>
   matmul (MakeDenseMatrix [Fin 0, Fin (20 / 11), Fin (10 / 11), Fin 0] 2 2) ex_Q \<and>
   ALS_iteration diag_solve (MakeDenseMatrix [Fin 3, Fin 4] 1 2) 1
       (MakeDenseMatrix [Fin 1] 1 1, MakeDenseMatrix [Fin 1, Fin 1] 1 2) =
     Inr (MakeDenseMatrix [Fin (10 / 3)] 1 1, MakeDenseMatrix [Fin (900 / 1009)] 1 1) \<and>
   ALS (\<lambda>n. Fin (1 / 5)) diag_solve (MakeDenseMatrix [Fin 3, Fin 4] 1 2) 1 1 =
     Inr (MakeDenseMatrix [Fin (3000 / 1009)] 1 1)"
  by code_simp

text \<open>
  C8. With an iteration budget of 0 the loop body does not run: whatever the solve is,
  \<^verbatim>\<open>ALS\<close> returns the product of the two factors that \<^verbatim>\<open>MakeXY\<close> has just drawn.
\<close>

theorem ALS_zero_iterations:
  "ALS rnd solve Q 0 k = Inr (matmul (fst (MakeXY rnd Q k)) (snd (MakeXY rnd Q k)))"
  by (simp add: ALS_def matmul_def Let_def ALS_loop.simps [of _ _ _ 0 0])


subsection \<open>Reading and writing the store\<close>

lemma alloc_facts [simp]:
  "fst (alloc s xs) = fresh s"
  "fresh (snd (alloc s xs)) = Suc (fresh s)"
  "slices (snd (alloc s xs)) (fresh s) = xs"
  "a < fresh s \<Longrightarrow> slices (snd (alloc s xs)) a = slices s a"
  by (simp_all add: alloc_def fresh_def slices_def nth_append)

lemma overwrite_facts [simp]:
  "fresh (overwrite s a xs) = fresh s"
  "a < fresh s \<Longrightarrow> slices (overwrite s a xs) a = xs"
  "b \<noteq> a \<Longrightarrow> slices (overwrite s a xs) b = slices s b"
  by (simp_all add: overwrite_def fresh_def slices_def)

lemma frame_refl: "frame s a0 s"
  by (simp add: frame_def)

lemma frame_alloc: "frame s0 a0 s \<Longrightarrow> frame s0 a0 (snd (alloc s xs))"
  by (simp add: frame_def)

lemma frame_overwrite:
  "frame s0 a0 s \<Longrightarrow> m = a0 \<or> fresh s0 \<le> m \<Longrightarrow> frame s0 a0 (overwrite s m xs)"
  by (auto simp: frame_def)

lemma SimpleTimes_loop_frame:
  "frame s0 a0 s \<Longrightarrow> m = a0 \<or> fresh s0 \<le> m \<Longrightarrow> frame s0 a0 (SimpleTimes_loop w m i n s)"
proof (induction "n - i" arbitrary: i s)
  case 0
  then show ?case by (simp add: SimpleTimes_loop.simps [of w m i n s])
next
  case (Suc d)
  then have lt: "i < n" and d: "d = n - (i + 1)" by simp_all
  let ?s = "overwrite s m ((slices s m)[i := fmul (slices s w ! i) (slices s m ! i)])"
  have "frame s0 a0 ?s" using Suc.prems by (rule frame_overwrite)
  then have "frame s0 a0 (SimpleTimes_loop w m (i + 1) n ?s)"
    using Suc.prems(2) by (rule Suc.hyps(1) [OF d])
  then show ?case using lt by (simp add: SimpleTimes_loop.simps [of w m i n s])
qed

lemma Array_store_frame:
  assumes "frame s0 a0 s" "elements A = a0 \<or> fresh s0 \<le> elements A"
  shows "frame s0 a0 (snd (Array_store shares s A))"
    and "fst (Array_store shares s A) = a0 \<or> fresh s0 \<le> fst (Array_store shares s A)"
  using assms by (auto simp: Array_store_def frame_alloc frame_def)

lemma Array_store_frame_read: "frame s0 a0 s \<Longrightarrow> frame s0 a0 (snd (Array_store shares s A))"
  by (simp add: Array_store_def frame_alloc)

lemma SimpleTimes_frame:
  assumes "frame s0 a0 s" "elements mat = a0 \<or> fresh s0 \<le> elements mat"
  shows "frame s0 a0 (snd (SimpleTimes shares s mat weight))"
    and "fst (SimpleTimes shares s mat weight) = Some P \<Longrightarrow>
         elements P = a0 \<or> fresh s0 \<le> elements P"
proof -
  let ?w = "Array_store shares s weight"
  let ?m = "Array_store shares (snd ?w) mat"
  have f1: "frame s0 a0 (snd ?w)" using assms(1) by (rule Array_store_frame_read)
  have f2: "frame s0 a0 (snd ?m)" and a: "fst ?m = a0 \<or> fresh s0 \<le> fst ?m"
    using f1 assms(2) by (rule Array_store_frame)+
  have f3: "frame s0 a0 (SimpleTimes_loop (fst ?w) (fst ?m) 0 (rows mat * cols mat) (snd ?m))"
    using f2 a by (rule SimpleTimes_loop_frame)
  show "frame s0 a0 (snd (SimpleTimes shares s mat weight))"
    using f3 assms(1) by (auto simp: SimpleTimes_def Let_def split_beta)
  show "elements P = a0 \<or> fresh s0 \<le> elements P"
    if "fst (SimpleTimes shares s mat weight) = Some P"
    using that a by (auto simp: SimpleTimes_def Let_def split_beta MakeDenseMatrix_def split: if_splits)
qed

lemma GetError_frame: "frame s (elements Q) (snd (GetError shares s W Q X Y))"
proof -
  let ?t = "TimesDense_store s X Y"
  let ?s1 = "snd (snd ?t)"
  let ?s2 = "snd (SubtractDense_store ?s1 Q (fst ?t))"
  let ?p = "SimpleTimes shares ?s2 Q W"
  have f1: "frame s (elements Q) ?s1"
    by (simp add: TimesDense_store_def split_beta Let_def frame_alloc frame_refl)
  have f2: "frame s (elements Q) ?s2"
    using f1 by (simp add: SubtractDense_store_def split_beta Let_def frame_overwrite)
  have f3: "frame s (elements Q) (snd ?p)"
    using f2 by (rule SimpleTimes_frame) simp
  show ?thesis
  proof (cases "fst ?p")
    case None
    then show ?thesis using f3 by (simp add: GetError_def split_beta Let_def)
  next
    case (Some P)
    then have "elements P = elements Q \<or> fresh s \<le> elements P"
      using SimpleTimes_frame(2) [OF f2, of Q shares W P] by simp
    with f3 have "frame s (elements Q) (snd (SimpleTimes shares (snd ?p) P P))"
      by (rule SimpleTimes_frame)
    then show ?thesis
      using Some by (simp add: GetError_def split_beta Let_def split: option.splits)
  qed
qed


subsection \<open>What the weighted error writes\<close>

text \<open>
  C5 (amended). \<^verbatim>\<open>GetError\<close> leaves \<open>W\<close>, \<open>X\<close> and \<open>Y\<close> as they were, whenever their slices
  are not the slice of \<open>Q\<close>; the only slice of the caller's that it writes is the slice
  of \<open>Q\<close>.
\<close>

theorem GetError_leaves_W_X_Y:
  assumes "elements W < fresh s" "elements X < fresh s" "elements Y < fresh s"
    and "elements W \<noteq> elements Q" "elements X \<noteq> elements Q" "elements Y \<noteq> elements Q"
  shows "load (snd (GetError shares s W Q X Y)) W = load s W \<and>
         load (snd (GetError shares s W Q X Y)) X = load s X \<and>
         load (snd (GetError shares s W Q X Y)) Y = load s Y"
proof -
  have "frame s (elements Q) (snd (GetError shares s W Q X Y))" by (rule GetError_frame)
  then have "slices (snd (GetError shares s W Q X Y)) a = slices s a"
    if "a < fresh s" "a \<noteq> elements Q" for a
    using that by (simp add: frame_def)
  then show ?thesis using assms by (simp add: load_def)
qed

theorem GetError_leaves_W_X_Y_witness:
  "elements ex_Wr < fresh ex_store \<and> elements ex_Xr < fresh ex_store \<and>
   elements ex_Yr < fresh ex_store \<and> elements ex_Wr \<noteq> elements ex_Qr \<and>
   elements ex_Xr \<noteq> elements ex_Qr \<and> elements ex_Yr \<noteq> elements ex_Qr \<and>
   load (snd (GetError never_shares ex_store ex_Wr ex_Qr ex_Xr ex_Yr)) ex_Wr =
     MakeDenseMatrix [Fin 1, Fin 0] 1 2 \<and>
   load (snd (GetError never_shares ex_store ex_Wr ex_Qr ex_Xr ex_Yr)) ex_Xr =
     MakeDenseMatrix [Fin 1] 1 1 \<and>
   load (snd (GetError never_shares ex_store ex_Wr ex_Qr ex_Xr ex_Yr)) ex_Yr =
     MakeDenseMatrix [Fin 2, Fin 3] 1 2"
proof -
  have h: "elements ex_Wr < fresh ex_store" "elements ex_Xr < fresh ex_store"
    "elements ex_Yr < fresh ex_store" "elements ex_Wr \<noteq> elements ex_Qr"
    "elements ex_Xr \<noteq> elements ex_Qr" "elements ex_Yr \<noteq> elements ex_Qr"
    by (simp_all add: ex_Wr_def ex_Xr_def ex_Yr_def ex_Qr_def ex_store_def fresh_def
        MakeDenseMatrix_def)
  have l: "load ex_store ex_Wr = MakeDenseMatrix [Fin 1, Fin 0] 1 2"
    "load ex_store ex_Xr = MakeDenseMatrix [Fin 1] 1 1"
    "load ex_store ex_Yr = MakeDenseMatrix [Fin 2, Fin 3] 1 2"
    by (simp_all add: load_def slices_def ex_Wr_def ex_Xr_def ex_Yr_def ex_store_def
        MakeDenseMatrix_def)
  from GetError_leaves_W_X_Y [OF h, of never_shares] h l show ?thesis by simp
qed

text \<open>
  The claim as written fails: \<^verbatim>\<open>GetError\<close> overwrites \<open>Q\<close>. On the example \<open>Q = [5, 0]\<close>
  becomes \<open>Q - X\<cdot>Y = [3, -3]\<close> when \<^verbatim>\<open>Array()\<close> copies, and \<open>[9, 0]\<close> when it shares.
\<close>

theorem GetError_overwrites_Q_counterexample:
  "load ex_store ex_Qr = MakeDenseMatrix [Fin 5, Fin 0] 1 2 \<and>
   load (snd (GetError never_shares ex_store ex_Wr ex_Qr ex_Xr ex_Yr)) ex_Qr =
     MakeDenseMatrix [Fin 3, Fin (- 3)] 1 2 \<and>
   load (snd (GetError always_shares ex_store ex_Wr ex_Qr ex_Xr ex_Yr)) ex_Qr =
     MakeDenseMatrix [Fin 9, Fin 0] 1 2"
  by code_simp

subsection \<open>Prediction\<close>

text \<open>
  C9. \<^verbatim>\<open>Predict\<close> does not leave the weight matrix as it was: on the example it
  multiplies the caller's \<open>W = [0, 0, 1]\<close> by the largest rating, 5, in place.
\<close>

theorem Predict_scales_W:
  "load ex_store' ex_W3 = MakeDenseMatrix [Fin 0, Fin 0, Fin 1] 1 3 \<and>
   load (snd (snd (Predict never_shares ex_store' ex_W3 ex_Q3 ex_Qhat3))) ex_W3 =
     MakeDenseMatrix [Fin 0, Fin 0, Fin 5] 1 3 \<and>
   load (snd (snd (Predict always_shares ex_store' ex_W3 ex_Q3 ex_Qhat3))) ex_W3 =
     MakeDenseMatrix [Fin 0, Fin 0, Fin 5] 1 3"
  by code_simp

text \<open>
  C2. On the example (\<open>Q_hat = [1, 2, 3]\<close>, the third item already rated 5) the adjusted
  scores that \<^verbatim>\<open>Predict\<close> computes are \<open>[0, 5/2, 0]\<close>, greatest at index 1, and
  \<^verbatim>\<open>Predict\<close> returns index 2: the index of the greatest raw score.
\<close>

theorem Predict_ranks_raw_scores:
  "fst (Predict never_shares ex_store' ex_W3 ex_Q3 ex_Qhat3) = [2] \<and>
   Array (load (snd (snd (Predict never_shares ex_store' ex_W3 ex_Q3 ex_Qhat3)))
                (fst (snd (Predict never_shares ex_store' ex_W3 ex_Q3 ex_Qhat3)))) =
     [Fin 0, Fin (5 / 2), Fin 0] \<and>
   argmax [Fin 0, Fin (5 / 2), Fin 0] = 1 \<and>
   argmax (Array (load ex_store' ex_Qhat3)) = 2 \<and>
   fst (Predict always_shares ex_store' ex_W3 ex_Q3 ex_Qhat3) = [2]"
  by code_simp

end
